theory Spec2Isabelle
  imports
    Main
    "HOL-Library.Sublist"
    "HOL-Library.Multiset"
    "HOL-Library.Char_ord"
    "HOL-Library.List_Lexorder"
begin

section \<open>The query-execution handle (services/db.js)\<close>

text \<open>
  Every service function talks to PostgreSQL through \<^verbatim>\<open>db.query(text, params)\<close>, which
  either resolves to a result whose \<^verbatim>\<open>rows\<close> the caller reads, or rejects with the
  driver's error. The model keeps the list of statements sent so far (the log) and lets
  the handle answer a statement depending on everything sent before it, so a handle stands
  for any deterministic database. A statement is logged when it is sent, whether or not
  it then fails. A JavaScript string is a \<^typ>\<open>string\<close>, one \<^typ>\<open>char\<close> per code unit.
  A result row is an object with one property per selected column; the values are
  \<^verbatim>\<open>null\<close>, booleans and strings (a numeric or timestamp column is carried as its text;
  no function modelled here reads one).
\<close>

datatype jsval = JNull | JBool bool | JStr string

type_synonym row = "(string \<times> jsval) list"

datatype db_error = DbError string

type_synonym statement = "string \<times> string list"

type_synonym handle = "statement list \<Rightarrow> statement \<Rightarrow> db_error + row list"

type_synonym 'a io = "statement list \<Rightarrow> (db_error + 'a) \<times> statement list"

definition return_io :: "'a \<Rightarrow> 'a io" where
  "return_io x = (\<lambda>log. (Inr x, log))"

text \<open>\<^verbatim>\<open>await\<close> inside \<^verbatim>\<open>try { ... } catch (err) { console.error(...); throw err; }\<close>:
  a rejection skips the rest of the block and is rethrown unchanged.\<close>

definition bind_io :: "'a io \<Rightarrow> ('a \<Rightarrow> 'b io) \<Rightarrow> 'b io" where
  "bind_io m f =
     (\<lambda>log. case m log of
        (Inl e, log') \<Rightarrow> (Inl e, log')
      | (Inr x, log') \<Rightarrow> f x log')"

text \<open>\<^verbatim>\<open>query: (text, params) => pool.query(text, params)\<close>; a call without
  parameters is modelled with the empty parameter list.\<close>

definition query :: "handle \<Rightarrow> string \<Rightarrow> string list \<Rightarrow> row list io" where
  "query h text params = (\<lambda>log. (h log (text, params), log @ [(text, params)]))"

text \<open>What a computation sent, and what it returned, when started after \<open>log\<close>.\<close>

definition issued_by :: "'a io \<Rightarrow> statement list \<Rightarrow> statement list" where
  "issued_by m log = drop (length log) (snd (m log))"

definition outcome :: "'a io \<Rightarrow> statement list \<Rightarrow> db_error + 'a" where
  "outcome m log = fst (m log)"

text \<open>A handle on which every statement succeeds with no rows, one on which every
  statement succeeds with the same given rows, and the property of a handle that no
  statement ever fails on it.\<close>

definition always_ok :: handle where
  "always_ok = (\<lambda>log st. Inr [])"

definition always_rows :: "row list \<Rightarrow> handle" where
  "always_rows rows = (\<lambda>log st. Inr rows)"

definition never_fails :: "handle \<Rightarrow> bool" where
  "never_fails h = (\<forall>log st. \<exists>rows. h log st = Inr rows)"

text \<open>\<^verbatim>\<open>String.prototype.startsWith\<close>.\<close>

definition startsWith :: "string \<Rightarrow> string \<Rightarrow> bool" where
  "startsWith s searchString = prefix searchString s"

text \<open>The \<^verbatim>\<open>{ success, message }\<close> object the mutating services return.\<close>

record op_result =
  success :: bool
  message :: string

section \<open>User service (services/userService.js)\<close>

text \<open>
  listUsers builds the statement text by concatenation, sends it without parameters and
  returns the rows of the result.
\<close>

definition listUsers_query :: "bool \<Rightarrow> string" where
  "listUsers_query includeSystemUsers =
     (let query =
            ''SELECT rolname as username, rolsuper as is_superuser, '' @ [CHR 0x0A] @
            ''       rolcreaterole as can_create_role, rolcanlogin as can_login '' @ [CHR 0x0A] @
            ''       FROM pg_roles '' @ [CHR 0x0A] @
            ''       WHERE rolcanlogin = true'';
          query =
            (if \<not> includeSystemUsers
             then query @ '' AND rolname NOT LIKE 'pg'' @ [CHR 0x5C] @ ''_%' AND rolname NOT LIKE 'rds''
                        @ [CHR 0x5C] @ ''_%'' @ [CHR 0x27]
             else query);
          query = query @ '' ORDER BY rolname;''
      in query)"

definition listUsers :: "handle \<Rightarrow> bool \<Rightarrow> row list io" where
  "listUsers h includeSystemUsers =
     bind_io (query h (listUsers_query includeSystemUsers) []) (\<lambda>result. return_io result)"

definition createUser :: "handle \<Rightarrow> string \<Rightarrow> string \<Rightarrow> op_result io" where
  "createUser h username password =
     (if startsWith username ''pg_'' \<or> startsWith username ''rds_''
      then return_io \<lparr>success = False,
             message = ''Error: Cannot create user with reserved prefix (pg_ or rds_). These are reserved for system use.''\<rparr>
      else bind_io
             (query h (''CREATE ROLE '' @ username @ '' WITH LOGIN PASSWORD '' @ [CHR 0x27]
                         @ password @ [CHR 0x27] @ '';'') [])
             (\<lambda>_. return_io \<lparr>success = True,
                               message = ''User '' @ username @ '' created successfully''\<rparr>))"

definition updateUserPassword :: "handle \<Rightarrow> string \<Rightarrow> string \<Rightarrow> op_result io" where
  "updateUserPassword h username newPassword =
     (if startsWith username ''pg_'' \<or> startsWith username ''rds_''
      then return_io \<lparr>success = False,
             message = ''Error: Cannot modify system user '' @ username
                         @ ''. System users are protected.''\<rparr>
      else bind_io
             (query h (''ALTER ROLE '' @ username @ '' WITH PASSWORD '' @ [CHR 0x27]
                         @ newPassword @ [CHR 0x27] @ '';'') [])
             (\<lambda>_. return_io \<lparr>success = True,
                               message = ''Password for '' @ username @ '' updated successfully''\<rparr>))"

definition deleteUser :: "handle \<Rightarrow> string \<Rightarrow> op_result io" where
  "deleteUser h username =
     (if startsWith username ''pg_'' \<or> startsWith username ''rds_''
      then return_io \<lparr>success = False,
             message = ''Error: Cannot delete system user '' @ username
                         @ ''. System users are protected.''\<rparr>
      else bind_io
             (query h (''DROP ROLE '' @ username @ '';'') [])
             (\<lambda>_. return_io \<lparr>success = True,
                               message = ''User '' @ username @ '' deleted successfully''\<rparr>))"

section \<open>Role service (services/roleService.js)\<close>

definition createRole :: "handle \<Rightarrow> string \<Rightarrow> op_result io" where
  "createRole h rolename =
     (if startsWith rolename ''pg_'' \<or> startsWith rolename ''rds_''
      then return_io \<lparr>success = False,
             message = ''Error: Cannot create role with reserved prefix (pg_ or rds_). These are reserved for system use.''\<rparr>
      else bind_io
             (query h (''CREATE ROLE '' @ rolename @ '' NOLOGIN;'') [])
             (\<lambda>_. return_io \<lparr>success = True,
                               message = ''Role '' @ rolename @ '' created successfully''\<rparr>))"

definition deleteRole :: "handle \<Rightarrow> string \<Rightarrow> op_result io" where
  "deleteRole h rolename =
     (if startsWith rolename ''pg_'' \<or> startsWith rolename ''rds_''
      then return_io \<lparr>success = False,
             message = ''Error: Cannot delete system role '' @ rolename
                         @ ''. System roles are protected.''\<rparr>
      else bind_io
             (query h (''DROP ROLE '' @ rolename @ '';'') [])
             (\<lambda>_. return_io \<lparr>success = True,
                               message = ''Role '' @ rolename @ '' deleted successfully''\<rparr>))"

definition assignUserToRole :: "handle \<Rightarrow> string \<Rightarrow> string \<Rightarrow> op_result io" where
  "assignUserToRole h username rolename =
     bind_io
       (query h (''GRANT '' @ rolename @ '' TO '' @ username @ '';'') [])
       (\<lambda>_. return_io \<lparr>success = True,
                         message = ''User '' @ username @ '' assigned to role '' @ rolename
                                     @ '' successfully''\<rparr>)"

definition removeUserFromRole :: "handle \<Rightarrow> string \<Rightarrow> string \<Rightarrow> op_result io" where
  "removeUserFromRole h username rolename =
     bind_io
       (query h (''REVOKE '' @ rolename @ '' FROM '' @ username @ '';'') [])
       (\<lambda>_. return_io \<lparr>success = True,
                         message = ''User '' @ username @ '' removed from role '' @ rolename
                                     @ '' successfully''\<rparr>)"

section \<open>Permission service (services/permissionService.js): grants and revocations\<close>

text \<open>
  The \<^verbatim>\<open>schema\<close> parameter of the single-schema functions defaults to \<^verbatim>\<open>'public'\<close>
  when the caller omits it; here the caller always passes it. \<^verbatim>\<open>Array.prototype.join\<close>
  builds the message of the multi-schema functions.
\<close>

fun join :: "string list \<Rightarrow> string \<Rightarrow> string" where
  "join [] sep = []"
| "join [x] sep = x"
| "join (x # y # ys) sep = x @ sep @ join (y # ys) sep"

text \<open>The \<^verbatim>\<open>for (const schema of schemas)\<close> loop of grantReadPermissionsMulti.\<close>

fun grantReadPermissionsMulti_loop ::
  "handle \<Rightarrow> string \<Rightarrow> string list \<Rightarrow> string list \<Rightarrow> string list io" where
  "grantReadPermissionsMulti_loop h rolename [] messages = return_io messages"
| "grantReadPermissionsMulti_loop h rolename (schema # rest) messages =
     bind_io (query h (''GRANT USAGE ON SCHEMA '' @ schema @ '' TO '' @ rolename @ '';'') []) (\<lambda>_.
     bind_io (query h (''GRANT SELECT ON ALL TABLES IN SCHEMA '' @ schema @ '' TO '' @ rolename @ '';'') []) (\<lambda>_.
     bind_io (query h (''ALTER DEFAULT PRIVILEGES IN SCHEMA '' @ schema @ '' GRANT SELECT ON TABLES TO '' @ rolename @ '';'') []) (\<lambda>_.
     grantReadPermissionsMulti_loop h rolename rest (messages @ [schema]))))"

definition grantReadPermissionsMulti ::
  "handle \<Rightarrow> string \<Rightarrow> string \<Rightarrow> string list \<Rightarrow> op_result io" where
  "grantReadPermissionsMulti h rolename database schemas =
     bind_io (query h (''GRANT CONNECT ON DATABASE '' @ database @ '' TO '' @ rolename @ '';'') []) (\<lambda>_.
     bind_io (grantReadPermissionsMulti_loop h rolename schemas []) (\<lambda>messages.
     return_io \<lparr>success = True,
                message = ''Read permissions granted to '' @ rolename @ '' on '' @ database
                            @ '' schemas: '' @ join messages '', ''\<rparr>))"

text \<open>The loop of grantWritePermissionsMulti.\<close>

fun grantWritePermissionsMulti_loop ::
  "handle \<Rightarrow> string \<Rightarrow> string list \<Rightarrow> string list \<Rightarrow> string list io" where
  "grantWritePermissionsMulti_loop h rolename [] messages = return_io messages"
| "grantWritePermissionsMulti_loop h rolename (schema # rest) messages =
     bind_io (query h (''GRANT INSERT, UPDATE, DELETE ON ALL TABLES IN SCHEMA '' @ schema @ '' TO '' @ rolename @ '';'') []) (\<lambda>_.
     bind_io (query h (''ALTER DEFAULT PRIVILEGES IN SCHEMA '' @ schema @ '' GRANT SELECT, INSERT, UPDATE, DELETE ON TABLES TO '' @ rolename @ '';'') []) (\<lambda>_.
     bind_io (query h (''GRANT USAGE ON ALL SEQUENCES IN SCHEMA '' @ schema @ '' TO '' @ rolename @ '';'') []) (\<lambda>_.
     bind_io (query h (''ALTER DEFAULT PRIVILEGES IN SCHEMA '' @ schema @ '' GRANT USAGE ON SEQUENCES TO '' @ rolename @ '';'') []) (\<lambda>_.
     grantWritePermissionsMulti_loop h rolename rest (messages @ [schema])))))"

definition grantWritePermissionsMulti ::
  "handle \<Rightarrow> string \<Rightarrow> string \<Rightarrow> string list \<Rightarrow> op_result io" where
  "grantWritePermissionsMulti h rolename database schemas =
     bind_io (grantReadPermissionsMulti h rolename database schemas) (\<lambda>_.
     bind_io (grantWritePermissionsMulti_loop h rolename schemas []) (\<lambda>messages.
     return_io \<lparr>success = True,
                message = ''Write permissions granted to '' @ rolename @ '' on '' @ database
                            @ '' schemas: '' @ join messages '', ''\<rparr>))"

definition grantReadPermissions ::
  "handle \<Rightarrow> string \<Rightarrow> string \<Rightarrow> string \<Rightarrow> op_result io" where
  "grantReadPermissions h rolename database schema =
     bind_io (query h (''GRANT CONNECT ON DATABASE '' @ database @ '' TO '' @ rolename @ '';'') []) (\<lambda>_.
     bind_io (query h (''GRANT USAGE ON SCHEMA '' @ schema @ '' TO '' @ rolename @ '';'') []) (\<lambda>_.
     bind_io (query h (''GRANT SELECT ON ALL TABLES IN SCHEMA '' @ schema @ '' TO '' @ rolename @ '';'') []) (\<lambda>_.
     bind_io (query h (''ALTER DEFAULT PRIVILEGES IN SCHEMA '' @ schema @ '' GRANT SELECT ON TABLES TO '' @ rolename @ '';'') []) (\<lambda>_.
     return_io \<lparr>success = True,
                message = ''Read permissions granted to '' @ rolename @ '' on '' @ database
                            @ ''.'' @ schema\<rparr>))))"

definition grantWritePermissions ::
  "handle \<Rightarrow> string \<Rightarrow> string \<Rightarrow> string \<Rightarrow> op_result io" where
  "grantWritePermissions h rolename database schema =
     bind_io (grantReadPermissions h rolename database schema) (\<lambda>_.
     bind_io (query h (''GRANT INSERT, UPDATE, DELETE ON ALL TABLES IN SCHEMA '' @ schema @ '' TO '' @ rolename @ '';'') []) (\<lambda>_.
     bind_io (query h (''ALTER DEFAULT PRIVILEGES IN SCHEMA '' @ schema @ '' GRANT SELECT, INSERT, UPDATE, DELETE ON TABLES TO '' @ rolename @ '';'') []) (\<lambda>_.
     bind_io (query h (''GRANT USAGE ON ALL SEQUENCES IN SCHEMA '' @ schema @ '' TO '' @ rolename @ '';'') []) (\<lambda>_.
     bind_io (query h (''ALTER DEFAULT PRIVILEGES IN SCHEMA '' @ schema @ '' GRANT USAGE ON SEQUENCES TO '' @ rolename @ '';'') []) (\<lambda>_.
     return_io \<lparr>success = True,
                message = ''Write permissions granted to '' @ rolename @ '' on '' @ database
                            @ ''.'' @ schema\<rparr>)))))"

text \<open>The loop of revokeAllPermissionsMulti.\<close>

fun revokeAllPermissionsMulti_loop ::
  "handle \<Rightarrow> string \<Rightarrow> string list \<Rightarrow> string list \<Rightarrow> string list io" where
  "revokeAllPermissionsMulti_loop h rolename [] messages = return_io messages"
| "revokeAllPermissionsMulti_loop h rolename (schema # rest) messages =
     bind_io (query h (''REVOKE ALL PRIVILEGES ON ALL TABLES IN SCHEMA '' @ schema @ '' FROM '' @ rolename @ '';'') []) (\<lambda>_.
     bind_io (query h (''REVOKE ALL PRIVILEGES ON ALL SEQUENCES IN SCHEMA '' @ schema @ '' FROM '' @ rolename @ '';'') []) (\<lambda>_.
     bind_io (query h (''REVOKE ALL PRIVILEGES ON SCHEMA '' @ schema @ '' FROM '' @ rolename @ '';'') []) (\<lambda>_.
     bind_io (query h (''ALTER DEFAULT PRIVILEGES IN SCHEMA '' @ schema @ '' REVOKE ALL PRIVILEGES ON TABLES FROM '' @ rolename @ '';'') []) (\<lambda>_.
     bind_io (query h (''ALTER DEFAULT PRIVILEGES IN SCHEMA '' @ schema @ '' REVOKE ALL PRIVILEGES ON SEQUENCES FROM '' @ rolename @ '';'') []) (\<lambda>_.
     revokeAllPermissionsMulti_loop h rolename rest (messages @ [schema]))))))"

definition revokeAllPermissionsMulti ::
  "handle \<Rightarrow> string \<Rightarrow> string \<Rightarrow> string list \<Rightarrow> op_result io" where
  "revokeAllPermissionsMulti h rolename database schemas =
     bind_io (revokeAllPermissionsMulti_loop h rolename schemas []) (\<lambda>messages.
     bind_io (query h (''REVOKE ALL PRIVILEGES ON DATABASE '' @ database @ '' FROM '' @ rolename @ '';'') []) (\<lambda>_.
     return_io \<lparr>success = True,
                message = ''All permissions revoked from '' @ rolename @ '' on '' @ database
                            @ '' schemas: '' @ join messages '', ''\<rparr>))"

definition revokeAllPermissions ::
  "handle \<Rightarrow> string \<Rightarrow> string \<Rightarrow> string \<Rightarrow> op_result io" where
  "revokeAllPermissions h rolename database schema =
     bind_io (query h (''REVOKE ALL PRIVILEGES ON ALL TABLES IN SCHEMA '' @ schema @ '' FROM '' @ rolename @ '';'') []) (\<lambda>_.
     bind_io (query h (''REVOKE ALL PRIVILEGES ON ALL SEQUENCES IN SCHEMA '' @ schema @ '' FROM '' @ rolename @ '';'') []) (\<lambda>_.
     bind_io (query h (''REVOKE ALL PRIVILEGES ON SCHEMA '' @ schema @ '' FROM '' @ rolename @ '';'') []) (\<lambda>_.
     bind_io (query h (''REVOKE ALL PRIVILEGES ON DATABASE '' @ database @ '' FROM '' @ rolename @ '';'') []) (\<lambda>_.
     bind_io (query h (''ALTER DEFAULT PRIVILEGES IN SCHEMA '' @ schema @ '' REVOKE ALL PRIVILEGES ON TABLES FROM '' @ rolename @ '';'') []) (\<lambda>_.
     bind_io (query h (''ALTER DEFAULT PRIVILEGES IN SCHEMA '' @ schema @ '' REVOKE ALL PRIVILEGES ON SEQUENCES FROM '' @ rolename @ '';'') []) (\<lambda>_.
     return_io \<lparr>success = True,
                message = ''All permissions revoked from '' @ rolename @ '' on '' @ database
                            @ ''.'' @ schema\<rparr>))))))"

section \<open>Statement sequences\<close>

text \<open>
  Sending a list of statements one after the other, stopping at the first that fails:
  what a block of consecutive \<^verbatim>\<open>await db.query(...)\<close> lines does. The grant and revoke
  functions are shown below to be such runs of the statement lists named here.
\<close>

fun exec_all :: "handle \<Rightarrow> statement list \<Rightarrow> unit io" where
  "exec_all h [] = return_io ()"
| "exec_all h (st # sts) = bind_io (query h (fst st) (snd st)) (\<lambda>_. exec_all h sts)"

text \<open>The database-level grant, and the per-schema statements of the read grant and of
  the write grant, in the order the source sends them.\<close>

definition connect_stmt :: "string \<Rightarrow> string \<Rightarrow> statement" where
  "connect_stmt database rolename =
     (''GRANT CONNECT ON DATABASE '' @ database @ '' TO '' @ rolename @ '';'', [])"

definition read_schema_stmts :: "string \<Rightarrow> string \<Rightarrow> statement list" where
  "read_schema_stmts rolename schema =
     [(''GRANT USAGE ON SCHEMA '' @ schema @ '' TO '' @ rolename @ '';'', []),
      (''GRANT SELECT ON ALL TABLES IN SCHEMA '' @ schema @ '' TO '' @ rolename @ '';'', []),
      (''ALTER DEFAULT PRIVILEGES IN SCHEMA '' @ schema @ '' GRANT SELECT ON TABLES TO '' @ rolename @ '';'', [])]"

definition write_schema_stmts :: "string \<Rightarrow> string \<Rightarrow> statement list" where
  "write_schema_stmts rolename schema =
     [(''GRANT INSERT, UPDATE, DELETE ON ALL TABLES IN SCHEMA '' @ schema @ '' TO '' @ rolename @ '';'', []),
      (''ALTER DEFAULT PRIVILEGES IN SCHEMA '' @ schema @ '' GRANT SELECT, INSERT, UPDATE, DELETE ON TABLES TO '' @ rolename @ '';'', []),
      (''GRANT USAGE ON ALL SEQUENCES IN SCHEMA '' @ schema @ '' TO '' @ rolename @ '';'', []),
      (''ALTER DEFAULT PRIVILEGES IN SCHEMA '' @ schema @ '' GRANT USAGE ON SEQUENCES TO '' @ rolename @ '';'', [])]"

text \<open>The database-level revocation and the per-schema statements of the revocation, in
  the order the multi-schema loop sends them.\<close>

definition revoke_database_stmt :: "string \<Rightarrow> string \<Rightarrow> statement" where
  "revoke_database_stmt database rolename =
     (''REVOKE ALL PRIVILEGES ON DATABASE '' @ database @ '' FROM '' @ rolename @ '';'', [])"

definition revoke_schema_stmts :: "string \<Rightarrow> string \<Rightarrow> statement list" where
  "revoke_schema_stmts rolename schema =
     [(''REVOKE ALL PRIVILEGES ON ALL TABLES IN SCHEMA '' @ schema @ '' FROM '' @ rolename @ '';'', []),
      (''REVOKE ALL PRIVILEGES ON ALL SEQUENCES IN SCHEMA '' @ schema @ '' FROM '' @ rolename @ '';'', []),
      (''REVOKE ALL PRIVILEGES ON SCHEMA '' @ schema @ '' FROM '' @ rolename @ '';'', []),
      (''ALTER DEFAULT PRIVILEGES IN SCHEMA '' @ schema @ '' REVOKE ALL PRIVILEGES ON TABLES FROM '' @ rolename @ '';'', []),
      (''ALTER DEFAULT PRIVILEGES IN SCHEMA '' @ schema @ '' REVOKE ALL PRIVILEGES ON SEQUENCES FROM '' @ rolename @ '';'', [])]"

definition read_phase :: "string \<Rightarrow> string \<Rightarrow> string list \<Rightarrow> statement list" where
  "read_phase rolename database schemas =
     connect_stmt database rolename # concat (map (read_schema_stmts rolename) schemas)"

definition write_phase :: "string \<Rightarrow> string list \<Rightarrow> statement list" where
  "write_phase rolename schemas = concat (map (write_schema_stmts rolename) schemas)"

text \<open>Two sequential single-schema calls, the second awaited after the first, and a
  handle that fails on one given statement only.\<close>

definition grantRead_twice :: "handle \<Rightarrow> string \<Rightarrow> string \<Rightarrow> string \<Rightarrow> string \<Rightarrow> op_result io" where
  "grantRead_twice h r d s1 s2 =
     bind_io (grantReadPermissions h r d s1) (\<lambda>_. grantReadPermissions h r d s2)"

definition grantWrite_twice :: "handle \<Rightarrow> string \<Rightarrow> string \<Rightarrow> string \<Rightarrow> string \<Rightarrow> op_result io" where
  "grantWrite_twice h r d s1 s2 =
     bind_io (grantWritePermissions h r d s1) (\<lambda>_. grantWritePermissions h r d s2)"

definition revokeAll_twice :: "handle \<Rightarrow> string \<Rightarrow> string \<Rightarrow> string \<Rightarrow> string \<Rightarrow> op_result io" where
  "revokeAll_twice h r d s1 s2 =
     bind_io (revokeAllPermissions h r d s1) (\<lambda>_. revokeAllPermissions h r d s2)"

definition fails_on :: "statement \<Rightarrow> db_error \<Rightarrow> handle" where
  "fails_on st e = (\<lambda>log q. if q = st then Inl e else Inr [])"

section \<open>Permission service: the permission report (listPermissions)\<close>

text \<open>
  The report object. \<^verbatim>\<open>roleDetails\<close> is the first row of the role query, or the empty
  object when the role does not exist; \<^verbatim>\<open>description\<close> is \<^verbatim>\<open>null\<close> (\<open>None\<close>) or a string.
\<close>

record permissions =
  roleDetails :: row
  tablePermissions :: "row list"
  schemaPermissions :: "row list"
  databasePermissions :: "row list"
  columnPermissions :: "row list"
  functionPermissions :: "row list"
  defaultPrivileges :: "row list"
  memberOf :: "row list"
  description :: "string option"

text \<open>The texts of the six queries, as the template literals spell them.\<close>

definition listPermissions_roleInfo_sql :: string where
  "listPermissions_roleInfo_sql =
     [CHR 0x0A] @
     ''      SELECT '' @ [CHR 0x0A] @
     ''        rolname,'' @ [CHR 0x0A] @
     ''        rolsuper,'' @ [CHR 0x0A] @
     ''        rolinherit,'' @ [CHR 0x0A] @
     ''        rolcreaterole,'' @ [CHR 0x0A] @
     ''        rolcreatedb,'' @ [CHR 0x0A] @
     ''        rolcanlogin,'' @ [CHR 0x0A] @
     ''        rolreplication,'' @ [CHR 0x0A] @
     ''        rolconnlimit,'' @ [CHR 0x0A] @
     ''        rolvaliduntil'' @ [CHR 0x0A] @
     ''      FROM pg_roles'' @ [CHR 0x0A] @
     ''      WHERE rolname = $1;'' @ [CHR 0x0A] @
     ''    ''"

definition listPermissions_tablePerms_sql :: string where
  "listPermissions_tablePerms_sql =
     [CHR 0x0A] @
     ''      SELECT table_catalog, table_schema, table_name, privilege_type'' @ [CHR 0x0A] @
     ''      FROM information_schema.table_privileges'' @ [CHR 0x0A] @
     ''      WHERE grantee = $1'' @ [CHR 0x0A] @
     ''      ORDER BY table_schema, table_name, privilege_type;'' @ [CHR 0x0A] @
     ''    ''"

definition listPermissions_memberOf_sql :: string where
  "listPermissions_memberOf_sql =
     [CHR 0x0A] @
     ''      SELECT r.rolname AS parent_role'' @ [CHR 0x0A] @
     ''      FROM pg_roles m'' @ [CHR 0x0A] @
     ''      JOIN pg_auth_members ON pg_auth_members.member = m.oid'' @ [CHR 0x0A] @
     ''      JOIN pg_roles r ON pg_auth_members.roleid = r.oid'' @ [CHR 0x0A] @
     ''      WHERE m.rolname = $1;'' @ [CHR 0x0A] @
     ''    ''"

definition listPermissions_columnPerms_sql :: string where
  "listPermissions_columnPerms_sql =
     [CHR 0x0A] @
     ''      SELECT table_catalog, table_schema, table_name, column_name, privilege_type'' @ [CHR 0x0A] @
     ''      FROM information_schema.column_privileges'' @ [CHR 0x0A] @
     ''      WHERE grantee = $1'' @ [CHR 0x0A] @
     ''      ORDER BY table_schema, table_name, column_name, privilege_type;'' @ [CHR 0x0A] @
     ''    ''"

definition listPermissions_schemaPerms_sql :: string where
  "listPermissions_schemaPerms_sql =
     [CHR 0x0A] @
     ''      SELECT '' @ [CHR 0x0A] @
     ''        n.nspname AS schema_name,'' @ [CHR 0x0A] @
     ''        CASE'' @ [CHR 0x0A] @
     ''          WHEN has_schema_privilege($1, n.oid, 'CREATE') THEN 'CREATE'' @ [CHR 0x27] @ [CHR 0x0A] @
     ''          ELSE NULL'' @ [CHR 0x0A] @
     ''        END AS create_privilege,'' @ [CHR 0x0A] @
     ''        CASE'' @ [CHR 0x0A] @
     ''          WHEN has_schema_privilege($1, n.oid, 'USAGE') THEN 'USAGE'' @ [CHR 0x27] @ [CHR 0x0A] @
     ''          ELSE NULL'' @ [CHR 0x0A] @
     ''        END AS usage_privilege'' @ [CHR 0x0A] @
     ''      FROM pg_namespace n'' @ [CHR 0x0A] @
     ''      WHERE n.nspname NOT IN ('pg_catalog', 'information_schema')'' @ [CHR 0x0A] @
     ''        AND (has_schema_privilege($1, n.oid, 'CREATE') OR has_schema_privilege($1, n.oid, 'USAGE'))'' @ [CHR 0x0A] @
     ''      ORDER BY n.nspname;'' @ [CHR 0x0A] @
     ''    ''"

definition listPermissions_dbPerms_sql :: string where
  "listPermissions_dbPerms_sql =
     [CHR 0x0A] @
     ''      SELECT '' @ [CHR 0x0A] @
     ''        datname AS database_name,'' @ [CHR 0x0A] @
     ''        CASE'' @ [CHR 0x0A] @
     ''          WHEN has_database_privilege($1, oid, 'CONNECT') THEN 'CONNECT'' @ [CHR 0x27] @ [CHR 0x0A] @
     ''          ELSE NULL'' @ [CHR 0x0A] @
     ''        END AS connect_privilege,'' @ [CHR 0x0A] @
     ''        CASE'' @ [CHR 0x0A] @
     ''          WHEN has_database_privilege($1, oid, 'CREATE') THEN 'CREATE'' @ [CHR 0x27] @ [CHR 0x0A] @
     ''          ELSE NULL'' @ [CHR 0x0A] @
     ''        END AS create_privilege,'' @ [CHR 0x0A] @
     ''        CASE'' @ [CHR 0x0A] @
     ''          WHEN has_database_privilege($1, oid, 'TEMP') THEN 'TEMP'' @ [CHR 0x27] @ [CHR 0x0A] @
     ''          ELSE NULL'' @ [CHR 0x0A] @
     ''        END AS temp_privilege'' @ [CHR 0x0A] @
     ''      FROM pg_database'' @ [CHR 0x0A] @
     ''      WHERE (has_database_privilege($1, oid, 'CONNECT') OR '' @ [CHR 0x0A] @
     ''             has_database_privilege($1, oid, 'CREATE') OR'' @ [CHR 0x0A] @
     ''             has_database_privilege($1, oid, 'TEMP'))'' @ [CHR 0x0A] @
     ''      ORDER BY datname;'' @ [CHR 0x0A] @
     ''    ''"

text \<open>
  The function-privilege query between the column query and the schema query is commented
  out in the source, together with the assignment to \<^verbatim>\<open>functionPermissions\<close>, so it is
  no part of the function.
\<close>

definition listPermissions :: "handle \<Rightarrow> string \<Rightarrow> permissions io" where
  "listPermissions h rolename =
     bind_io (query h listPermissions_roleInfo_sql [rolename]) (\<lambda>roleInfo.
     let permissions =
           \<lparr>roleDetails = (case roleInfo of [] \<Rightarrow> [] | r # _ \<Rightarrow> r),
            tablePermissions = [],
            schemaPermissions = [],
            databasePermissions = [],
            columnPermissions = [],
            functionPermissions = [],
            defaultPrivileges = [],
            memberOf = [],
            description = None\<rparr> in
     bind_io (query h listPermissions_tablePerms_sql [rolename]) (\<lambda>tablePerms.
     let permissions = permissions\<lparr>tablePermissions := tablePerms\<rparr> in
     bind_io (query h listPermissions_memberOf_sql [rolename]) (\<lambda>memberOf.
     let permissions = permissions\<lparr>memberOf := memberOf\<rparr> in
     bind_io (query h listPermissions_columnPerms_sql [rolename]) (\<lambda>columnPerms.
     let permissions = permissions\<lparr>columnPermissions := columnPerms\<rparr> in
     bind_io (query h listPermissions_schemaPerms_sql [rolename]) (\<lambda>schemaPerms.
     let permissions = permissions\<lparr>schemaPermissions := schemaPerms\<rparr> in
     bind_io (query h listPermissions_dbPerms_sql [rolename]) (\<lambda>dbPerms.
     let permissions = permissions\<lparr>databasePermissions := dbPerms\<rparr> in
     return_io permissions))))))"

text \<open>The six sub-queries in the order listPermissions sends them: role attributes, table
  privileges, role memberships, column privileges, schema privileges, database privileges.\<close>

definition listPermissions_queries :: "string \<Rightarrow> statement list" where
  "listPermissions_queries rolename =
     [(listPermissions_roleInfo_sql, [rolename]),
      (listPermissions_tablePerms_sql, [rolename]),
      (listPermissions_memberOf_sql, [rolename]),
      (listPermissions_columnPerms_sql, [rolename]),
      (listPermissions_schemaPerms_sql, [rolename]),
      (listPermissions_dbPerms_sql, [rolename])]"

text \<open>The lines the \<^verbatim>\<open>--help\<close> handler of the list-permissions command prints
  (commands/permissionCommands.js).\<close>

definition list_permissions_help :: "string list" where
  "list_permissions_help =
     [[CHR 0x0A] @ ''Displays detailed information about permissions granted to a role:'',
      ''  - Basic role attributes'',
      ''  - Table permissions (SELECT, INSERT, UPDATE, DELETE, etc.)'',
      ''  - Column-level permissions'',
      ''  - Schema permissions (USAGE, CREATE)'',
      ''  - Database permissions (CONNECT, CREATE, TEMP)'',
      ''  - Function permissions (for system roles)'',
      ''  - Role memberships'',
      ''  - Special notes for system roles'',
      [CHR 0x0A] @ ''You will be prompted to:'',
      ''  - Select a role from a list of existing roles'',
      [CHR 0x0A] @ ''Example:'',
      ''  $ pg-user-manager list-permissions'']"

section \<open>A model of PostgreSQL for SELECT statements on pg_roles\<close>

record pg_role =
  rolname :: string
  rolsuper :: bool
  rolcreaterole :: bool
  rolcanlogin :: bool

text \<open>
  \<open>like s p\<close> is the SQL predicate \<^verbatim>\<open>s LIKE p\<close> with the default escape character: in the
  pattern \<^verbatim>\<open>%\<close> matches any sequence of characters, \<^verbatim>\<open>_\<close> any one character, and a
  backslash makes the character after it stand for itself. (PostgreSQL rejects a pattern
  that ends in a lone backslash; here such a pattern matches nothing.)
\<close>

fun like :: "string \<Rightarrow> string \<Rightarrow> bool" where
  "like [] [] = True"
| "like (c # s) [] = False"
| "like s (p # ps) =
     (if p = CHR ''%'' then
        like s ps \<or> (case s of [] \<Rightarrow> False | c # s' \<Rightarrow> like s' (p # ps))
      else if p = CHR ''_'' then
        (case s of [] \<Rightarrow> False | c # s' \<Rightarrow> like s' ps)
      else if p = CHR 0x5C then
        (case ps of
           [] \<Rightarrow> False
         | q # qs \<Rightarrow> (case s of [] \<Rightarrow> False | c # s' \<Rightarrow> c = q \<and> like s' qs))
      else
        (case s of [] \<Rightarrow> False | c # s' \<Rightarrow> c = p \<and> like s' ps))"

text \<open>
  The database answers the statement text it receives, so the model reads that text. It
  covers the statements of the form
  \<^verbatim>\<open>SELECT col as alias, ... FROM table [WHERE cond AND ...] [ORDER BY col] [;]\<close>
  with conditions \<^verbatim>\<open>col = true\<close>, \<^verbatim>\<open>col = false\<close>, \<^verbatim>\<open>col LIKE 'pattern'\<close> and
  \<^verbatim>\<open>col NOT LIKE 'pattern'\<close>. First the text is cut into tokens: words separated by white
  space, quoted strings (taken as they stand, backslashes included), commas, semicolons
  and equals signs.
\<close>

datatype token = Word string | Str string | Comma | Semi | Eq

datatype lexmode = Plain string | Quoted string

definition is_space :: "char \<Rightarrow> bool" where
  "is_space c = (c = CHR '' '' \<or> c = CHR 0x0A \<or> c = CHR 0x09 \<or> c = CHR 0x0D)"

fun flush :: "string \<Rightarrow> token list" where
  "flush [] = []"
| "flush w = [Word w]"

fun lex :: "lexmode \<Rightarrow> string \<Rightarrow> token list option" where
  "lex (Plain w) [] = Some (flush w)"
| "lex (Quoted s) [] = None"
| "lex (Plain w) (c # cs) =
     (if is_space c then map_option (\<lambda>ts. flush w @ ts) (lex (Plain []) cs)
      else if c = CHR '','' then map_option (\<lambda>ts. flush w @ Comma # ts) (lex (Plain []) cs)
      else if c = CHR '';'' then map_option (\<lambda>ts. flush w @ Semi # ts) (lex (Plain []) cs)
      else if c = CHR ''='' then map_option (\<lambda>ts. flush w @ Eq # ts) (lex (Plain []) cs)
      else if c = CHR 0x27 then map_option (\<lambda>ts. flush w @ ts) (lex (Quoted []) cs)
      else lex (Plain (w @ [c])) cs)"
| "lex (Quoted s) (c # cs) =
     (if c = CHR 0x27 then map_option (\<lambda>ts. Str s # ts) (lex (Plain []) cs)
      else lex (Quoted (s @ [c])) cs)"

text \<open>
  The statement a token list spells, if it is one of the fragment. Keywords are read in
  upper case, \<^verbatim>\<open>as\<close> in either case, the truth values in lower case.
\<close>

datatype cond = BoolEq string bool | Like string bool string

record select_stmt =
  sel_items :: "(string \<times> string) list"
  sel_table :: string
  sel_where :: "cond list"
  sel_order :: "string option"

fun parse_items :: "token list \<Rightarrow> ((string \<times> string) list \<times> token list) option" where
  "parse_items (Word col # Word a # Word alias # Comma # rest) =
     (if a = ''as'' \<or> a = ''AS''
      then map_option (\<lambda>(items, r). ((col, alias) # items, r)) (parse_items rest)
      else None)"
| "parse_items (Word col # Word a # Word alias # rest) =
     (if a = ''as'' \<or> a = ''AS'' then Some ([(col, alias)], rest) else None)"
| "parse_items ts = None"

fun parse_cond :: "token list \<Rightarrow> (cond \<times> token list) option" where
  "parse_cond (Word col # Eq # Word v # rest) =
     (if v = ''true'' then Some (BoolEq col True, rest)
      else if v = ''false'' then Some (BoolEq col False, rest)
      else None)"
| "parse_cond (Word col # Word n # Word l # Str p # rest) =
     (if n = ''NOT'' \<and> l = ''LIKE'' then Some (Like col True p, rest) else None)"
| "parse_cond (Word col # Word l # Str p # rest) =
     (if l = ''LIKE'' then Some (Like col False p, rest) else None)"
| "parse_cond ts = None"

function parse_conds :: "token list \<Rightarrow> (cond list \<times> token list) option" where
  "parse_conds ts =
     (case parse_cond ts of
        None \<Rightarrow> None
      | Some (c, rest) \<Rightarrow>
          (case rest of
             Word a # rest' \<Rightarrow>
               (if a = ''AND''
                then map_option (\<lambda>(cs, r). (c # cs, r)) (parse_conds rest')
                else Some ([c], rest))
           | _ \<Rightarrow> Some ([c], rest)))"
  by pat_completeness auto
termination
  by (relation "measure length") (auto elim!: parse_cond.elims split: if_splits)

definition parse_order :: "token list \<Rightarrow> (string option \<times> token list) option" where
  "parse_order ts =
     (case ts of
        Word o1 # Word o2 # Word col # rest \<Rightarrow>
          (if o1 = ''ORDER'' \<and> o2 = ''BY'' then Some (Some col, rest) else None)
      | _ \<Rightarrow> Some (None, ts))"

definition parse_where :: "token list \<Rightarrow> (cond list \<times> token list) option" where
  "parse_where ts =
     (case ts of
        Word w # rest \<Rightarrow> (if w = ''WHERE'' then parse_conds rest else Some ([], ts))
      | _ \<Rightarrow> Some ([], ts))"

definition parse_select :: "token list \<Rightarrow> select_stmt option" where
  "parse_select ts =
     (case ts of
        Word s # ts1 \<Rightarrow>
          (if s \<noteq> ''SELECT'' then None
           else case parse_items ts1 of
                  Some (items, Word f # Word tbl # ts2) \<Rightarrow>
                    (if f \<noteq> ''FROM'' then None
                     else case parse_where ts2 of
                            None \<Rightarrow> None
                          | Some (conds, ts3) \<Rightarrow>
                              (case parse_order ts3 of
                                 None \<Rightarrow> None
                               | Some (ord, ts4) \<Rightarrow>
                                   (if ts4 = [] \<or> ts4 = [Semi]
                                    then Some \<lparr>sel_items = items, sel_table = tbl,
                                               sel_where = conds, sel_order = ord\<rparr>
                                    else None)))
                | _ \<Rightarrow> None)
      | _ \<Rightarrow> None)"

text \<open>
  Evaluation over a content of \<^verbatim>\<open>pg_roles\<close>: \<^verbatim>\<open>WHERE\<close> keeps the rows that satisfy every
  condition, \<^verbatim>\<open>NOT LIKE\<close> is the negation of \<open>like\<close>, \<^verbatim>\<open>ORDER BY\<close> on a text column sorts by
  code unit (the collation of the type \<^verbatim>\<open>name\<close>; without it the rows keep the order of the
  catalog), and each result row carries the selected columns under their aliases. An
  unknown table or column is an error, as is a statement outside the fragment.
\<close>

definition bool_column :: "string \<Rightarrow> (pg_role \<Rightarrow> bool) option" where
  "bool_column col =
     (if col = ''rolsuper'' then Some rolsuper
      else if col = ''rolcreaterole'' then Some rolcreaterole
      else if col = ''rolcanlogin'' then Some rolcanlogin
      else None)"

definition text_column :: "string \<Rightarrow> (pg_role \<Rightarrow> string) option" where
  "text_column col = (if col = ''rolname'' then Some rolname else None)"

definition column_value :: "string \<Rightarrow> (pg_role \<Rightarrow> jsval) option" where
  "column_value col =
     (case text_column col of
        Some f \<Rightarrow> Some (\<lambda>r. JStr (f r))
      | None \<Rightarrow> map_option (\<lambda>f r. JBool (f r)) (bool_column col))"

fun cond_test :: "cond \<Rightarrow> (pg_role \<Rightarrow> bool) option" where
  "cond_test (BoolEq col b) = map_option (\<lambda>f r. f r = b) (bool_column col)"
| "cond_test (Like col negated p) =
     map_option (\<lambda>f r. if negated then \<not> like (f r) p else like (f r) p) (text_column col)"

fun all_some :: "'a option list \<Rightarrow> 'a list option" where
  "all_some [] = Some []"
| "all_some (None # xs) = None"
| "all_some (Some x # xs) = map_option (Cons x) (all_some xs)"

definition run_select :: "select_stmt \<Rightarrow> pg_role list \<Rightarrow> db_error + row list" where
  "run_select q pg_roles =
     (if sel_table q \<noteq> ''pg_roles'' then Inl (DbError ''relation does not exist'')
      else
        case (all_some (map cond_test (sel_where q)),
              all_some (map (\<lambda>(col, alias). map_option (Pair alias) (column_value col)) (sel_items q)),
              (case sel_order q of
                 None \<Rightarrow> Some (\<lambda>rs. rs)
               | Some col \<Rightarrow> map_option sort_key (text_column col))) of
          (Some tests, Some outs, Some order) \<Rightarrow>
            Inr (map (\<lambda>r. map (\<lambda>(alias, f). (alias, f r)) outs)
                     (order (filter (\<lambda>r. list_all (\<lambda>t. t r) tests) pg_roles)))
        | _ \<Rightarrow> Inl (DbError ''column does not exist''))"

text \<open>The handle of a database whose \<^verbatim>\<open>pg_roles\<close> has the given content.\<close>

definition pg_roles_handle :: "pg_role list \<Rightarrow> handle" where
  "pg_roles_handle pg_roles =
     (\<lambda>log st.
        case lex (Plain []) (fst st) of
          None \<Rightarrow> Inl (DbError ''unterminated quoted string'')
        | Some ts \<Rightarrow>
            (case parse_select ts of
               None \<Rightarrow> Inl (DbError ''syntax error'')
             | Some q \<Rightarrow> run_select q pg_roles))"

text \<open>
  What the claim about listUsers is stated with: the statement that listUsers is expected
  to send, and the result row of a role.
\<close>

definition listUsers_select :: "bool \<Rightarrow> select_stmt" where
  "listUsers_select includeSystemUsers =
     \<lparr>sel_items = [(''rolname'', ''username''), (''rolsuper'', ''is_superuser''),
                   (''rolcreaterole'', ''can_create_role''), (''rolcanlogin'', ''can_login'')],
      sel_table = ''pg_roles'',
      sel_where =
        (if includeSystemUsers then [BoolEq ''rolcanlogin'' True]
         else [BoolEq ''rolcanlogin'' True,
               Like ''rolname'' True [CHR ''p'', CHR ''g'', CHR 0x5C, CHR ''_'', CHR ''%''],
               Like ''rolname'' True [CHR ''r'', CHR ''d'', CHR ''s'', CHR 0x5C, CHR ''_'', CHR ''%'']]),
      sel_order = Some ''rolname''\<rparr>"

definition user_row :: "pg_role \<Rightarrow> row" where
  "user_row r =
     [(''username'', JStr (rolname r)),
      (''is_superuser'', JBool (rolsuper r)),
      (''can_create_role'', JBool (rolcreaterole r)),
      (''can_login'', JBool (rolcanlogin r))]"

text \<open>A sample content of \<^verbatim>\<open>pg_roles\<close>.\<close>

definition demo_roles :: "pg_role list" where
  "demo_roles =
     [\<lparr>rolname = ''pg_monitor'', rolsuper = False, rolcreaterole = False, rolcanlogin = True\<rparr>,
      \<lparr>rolname = ''bob'', rolsuper = False, rolcreaterole = False, rolcanlogin = True\<rparr>,
      \<lparr>rolname = ''app_read_only'', rolsuper = False, rolcreaterole = False, rolcanlogin = False\<rparr>,
      \<lparr>rolname = ''rds_admin'', rolsuper = True, rolcreaterole = True, rolcanlogin = True\<rparr>,
      \<lparr>rolname = ''alice'', rolsuper = False, rolcreaterole = True, rolcanlogin = True\<rparr>]"

section \<open>Password generation (utils/passwordUtils.js)\<close>

text \<open>
  \<^verbatim>\<open>Math.random()\<close> is modelled by a source \<open>src\<close> of natural numbers, read at the index
  \<open>k\<close> that counts the calls so far: \<^verbatim>\<open>Math.floor(Math.random() * n)\<close> is \<open>src k mod n\<close>, so
  that every sequence of in-range indices is produced by some source. \<^verbatim>\<open>charAt\<close> returns
  the empty string out of range. The requested length is an integer.
\<close>

type_synonym rng = "nat \<Rightarrow> nat"

definition random_index :: "rng \<Rightarrow> nat \<Rightarrow> nat \<Rightarrow> nat" where
  "random_index src k n = src k mod n"

definition charAt :: "string \<Rightarrow> nat \<Rightarrow> string" where
  "charAt s i = (if i < length s then [s ! i] else [])"

definition lowercase :: string where
  "lowercase = ''abcdefghijklmnopqrstuvwxyz''"

definition uppercase :: string where
  "uppercase = ''ABCDEFGHIJKLMNOPQRSTUVWXYZ''"

definition numbers :: string where
  "numbers = ''0123456789''"

definition special :: string where
  "special = ''!@#$%^&*()_+-=[]{}|;:,.<>?''"

text \<open>The loop that fills the rest of the password, and the Fisher-Yates loop, which
  runs \<open>i\<close> from the last index down to 1 and swaps positions \<open>i\<close> and \<open>j\<close>.\<close>

fun fill_loop :: "rng \<Rightarrow> string \<Rightarrow> nat \<Rightarrow> nat \<Rightarrow> string \<Rightarrow> string \<times> nat" where
  "fill_loop src chars 0 k password = (password, k)"
| "fill_loop src chars (Suc n) k password =
     (let randomIndex = random_index src k (length chars)
      in fill_loop src chars n (Suc k) (password @ charAt chars randomIndex))"

fun shuffle_loop :: "rng \<Rightarrow> nat \<Rightarrow> nat \<Rightarrow> string \<Rightarrow> string" where
  "shuffle_loop src 0 k passwordArray = passwordArray"
| "shuffle_loop src (Suc i') k passwordArray =
     (let i = Suc i';
          j = random_index src k (i + 1)
      in shuffle_loop src i' (Suc k)
           (passwordArray[i := passwordArray ! j, j := passwordArray ! i]))"

definition generateSecurePassword :: "rng \<Rightarrow> int \<Rightarrow> bool \<Rightarrow> bool \<Rightarrow> bool \<Rightarrow> string" where
  "generateSecurePassword src len includeSpecial includeNumbers includeUppercase =
     (let chars = lowercase;
          chars = (if includeUppercase then chars @ uppercase else chars);
          chars = (if includeNumbers then chars @ numbers else chars);
          chars = (if includeSpecial then chars @ special else chars);
          password = [];
          k = 0;
          (password, k) =
            (if includeUppercase
             then (password @ charAt uppercase (random_index src k (length uppercase)), Suc k)
             else (password, k));
          (password, k) =
            (if includeNumbers
             then (password @ charAt numbers (random_index src k (length numbers)), Suc k)
             else (password, k));
          (password, k) =
            (if includeSpecial
             then (password @ charAt special (random_index src k (length special)), Suc k)
             else (password, k));
          remainingLength = len - int (length password);
          (password, k) = fill_loop src chars (nat remainingLength) k password;
          passwordArray = password
      in shuffle_loop src (length passwordArray - 1) k passwordArray)"

text \<open>A sample random source.\<close>

definition demo_rng :: rng where
  "demo_rng k = 7 * k + 3"

section \<open>Display utilities (utils/displayUtils.js): shaping the report\<close>

text \<open>
  Reading a property of a row gives \<^verbatim>\<open>undefined\<close> (\<open>None\<close>) when the row has no such
  column. \<open>truthy\<close> is the truth value JavaScript gives a value in a condition, and
  \<open>template_string\<close> the text a template literal puts in place of \<^verbatim>\<open>${value}\<close>.
\<close>

definition get_prop :: "row \<Rightarrow> string \<Rightarrow> jsval option" where
  "get_prop obj name = map_of obj name"

fun truthy :: "jsval option \<Rightarrow> bool" where
  "truthy None = False"
| "truthy (Some JNull) = False"
| "truthy (Some (JBool b)) = b"
| "truthy (Some (JStr s)) = (s \<noteq> [])"

fun template_string :: "jsval option \<Rightarrow> string" where
  "template_string None = ''undefined''"
| "template_string (Some JNull) = ''null''"
| "template_string (Some (JBool b)) = (if b then ''true'' else ''false'')"
| "template_string (Some (JStr s)) = s"

text \<open>\<^verbatim>\<open>new Set(array)\<close> keeps the first occurrence of each element, in order; its
  \<^verbatim>\<open>size\<close> is the length of that list.\<close>

definition new_Set :: "'a list \<Rightarrow> 'a list" where
  "new_Set xs = fold (\<lambda>x s. if x \<in> set s then s else s @ [x]) xs []"

text \<open>
  displayQuickSummary prints three flags and two counts; the model returns the values it
  computes for them. The report always has its fields, \<^verbatim>\<open>tablePermissions\<close> and
  \<^verbatim>\<open>columnPermissions\<close> are arrays and \<^verbatim>\<open>roleDetails\<close> is an object (all truthy), so each
  \<^verbatim>\<open>x && e\<close> of the source has the truth value of \<^verbatim>\<open>e\<close>.
\<close>

record quick_summary =
  hasReadPermissions :: bool
  hasWritePermissions :: bool
  hasAdminPermissions :: bool
  totalTables :: nat
  totalColumns :: nat

definition displayQuickSummary :: "permissions \<Rightarrow> quick_summary" where
  "displayQuickSummary permissions =
     (let hasReadPermissions =
            list_ex (\<lambda>p. get_prop p ''privilege_type'' = Some (JStr ''SELECT''))
                    (tablePermissions permissions);
          hasWritePermissions =
            list_ex (\<lambda>p. get_prop p ''privilege_type''
                            \<in> set [Some (JStr ''INSERT''), Some (JStr ''UPDATE''), Some (JStr ''DELETE'')])
                    (tablePermissions permissions);
          hasAdminPermissions =
            (truthy (get_prop (roleDetails permissions) ''rolsuper'')
             \<or> truthy (get_prop (roleDetails permissions) ''rolcreatedb'')
             \<or> truthy (get_prop (roleDetails permissions) ''rolcreaterole''));
          totalTables =
            length (new_Set (map (\<lambda>p. template_string (get_prop p ''table_schema'') @ ''.''
                                        @ template_string (get_prop p ''table_name''))
                                 (tablePermissions permissions)));
          totalColumns =
            length (new_Set (map (\<lambda>p. template_string (get_prop p ''table_schema'') @ ''.''
                                        @ template_string (get_prop p ''table_name'') @ ''.''
                                        @ template_string (get_prop p ''column_name''))
                                 (columnPermissions permissions)))
      in \<lparr>hasReadPermissions = hasReadPermissions,
          hasWritePermissions = hasWritePermissions,
          hasAdminPermissions = hasAdminPermissions,
          totalTables = totalTables,
          totalColumns = totalColumns\<rparr>)"

text \<open>
  The grouping objects (\<^verbatim>\<open>tablePermsByTable = {}\<close>) are association lists in insertion
  order. \<open>ensure_key\<close> is \<^verbatim>\<open>if (!obj[key]) obj[key] = init\<close> for a key that is no property
  of \<^verbatim>\<open>Object.prototype\<close>; \<open>modify_key\<close> is an update in place of \<^verbatim>\<open>obj[key]\<close>, such as
  \<^verbatim>\<open>obj[key].push(v)\<close>; \<open>own_value\<close> reads \<^verbatim>\<open>obj[key]\<close> of a key that is present.
\<close>

definition ensure_key :: "(string \<times> 'v) list \<Rightarrow> string \<Rightarrow> 'v \<Rightarrow> (string \<times> 'v) list" where
  "ensure_key obj key init = (if map_of obj key = None then obj @ [(key, init)] else obj)"

definition modify_key :: "(string \<times> 'v) list \<Rightarrow> string \<Rightarrow> ('v \<Rightarrow> 'v) \<Rightarrow> (string \<times> 'v) list" where
  "modify_key obj key f = map (\<lambda>(k, v). if k = key then (k, f v) else (k, v)) obj"

definition own_value :: "(string \<times> 'v list) list \<Rightarrow> string \<Rightarrow> 'v list" where
  "own_value obj key = (case map_of obj key of None \<Rightarrow> [] | Some v \<Rightarrow> v)"

text \<open>
  displayTablePermissions: the model returns the rows pushed to the printed table, in
  order: the table key, the privileges whose icon is shown, and the privileges listed in
  the second cell (before colouring and joining with commas). With no grants it prints
  ``None'' and pushes no row. A table key always contains a dot, so it is never a
  property of \<^verbatim>\<open>Object.prototype\<close>. \<^verbatim>\<open>Object.keys(...).sort()\<close> orders the keys by code
  unit.
\<close>

definition displayTablePermissions ::
  "row list \<Rightarrow> (string \<times> string list \<times> jsval option list) list" where
  "displayTablePermissions tablePerms =
     (if tablePerms = [] then []
      else
        let tablePermsByTable =
              fold (\<lambda>perm obj.
                      let tableKey = template_string (get_prop perm ''table_schema'') @ ''.''
                                       @ template_string (get_prop perm ''table_name'');
                          obj = ensure_key obj tableKey []
                      in modify_key obj tableKey (\<lambda>perms. perms @ [get_prop perm ''privilege_type'']))
                   tablePerms []
        in map (\<lambda>tableKey.
                  let perms = own_value tablePermsByTable tableKey;
                      permIcons =
                        (if Some (JStr ''SELECT'') \<in> set perms then [''SELECT''] else [])
                        @ (if Some (JStr ''INSERT'') \<in> set perms then [''INSERT''] else [])
                        @ (if Some (JStr ''UPDATE'') \<in> set perms then [''UPDATE''] else [])
                        @ (if Some (JStr ''DELETE'') \<in> set perms then [''DELETE''] else [])
                  in (tableKey, permIcons, perms))
               (sort (map fst tablePermsByTable)))"

text \<open>
  displayColumnPermissions groups by table key and then by column name. The inner objects
  are plain objects too, and a column name is any identifier: for a column called like a
  property of \<^verbatim>\<open>Object.prototype\<close> the test \<^verbatim>\<open>!permsByTable[tableKey][columnName]\<close> finds the
  inherited value, no array is stored, and \<^verbatim>\<open>.push\<close> throws a TypeError. These are the
  property names of \<^verbatim>\<open>Object.prototype\<close> in Node.js.
\<close>

definition object_prototype_names :: "string list" where
  "object_prototype_names =
     [''constructor'', ''__defineGetter__'', ''__defineSetter__'', ''hasOwnProperty'',
      ''__lookupGetter__'', ''__lookupSetter__'', ''isPrototypeOf'', ''propertyIsEnumerable'',
      ''toString'', ''valueOf'', ''__proto__'', ''toLocaleString'']"

datatype js_error = TypeError

fun displayColumnPermissions_forEach ::
  "row list \<Rightarrow> (string \<times> (string \<times> jsval option list) list) list
     \<Rightarrow> js_error + (string \<times> (string \<times> jsval option list) list) list" where
  "displayColumnPermissions_forEach [] permsByTable = Inr permsByTable"
| "displayColumnPermissions_forEach (perm # rest) permsByTable =
     (let tableKey = template_string (get_prop perm ''table_schema'') @ ''.''
                       @ template_string (get_prop perm ''table_name'');
          permsByTable = ensure_key permsByTable tableKey [];
          columnName = template_string (get_prop perm ''column_name'')
      in if columnName \<in> set object_prototype_names then Inl TypeError
         else displayColumnPermissions_forEach rest
                (modify_key permsByTable tableKey
                   (\<lambda>columns.
                      modify_key (ensure_key columns columnName []) columnName
                        (\<lambda>perms. perms @ [get_prop perm ''privilege_type'']))))"

definition displayColumnPermissions ::
  "row list \<Rightarrow> js_error + (string \<times> (string \<times> jsval option list) list) list" where
  "displayColumnPermissions columnPerms =
     (if columnPerms = [] then Inr []
      else
        case displayColumnPermissions_forEach columnPerms [] of
          Inl e \<Rightarrow> Inl e
        | Inr permsByTable \<Rightarrow>
            Inr (map (\<lambda>tableKey.
                        (tableKey,
                         map (\<lambda>columnName.
                                (columnName, own_value (own_value permsByTable tableKey) columnName))
                             (sort (map fst (own_value permsByTable tableKey)))))
                     (sort (map fst permsByTable))))"

text \<open>
  The key of a grant row, its column name and its privilege kind, and the grouping the
  two display functions are compared with: one entry per distinct key, in sorted order,
  holding the privilege of every grant row with that key, in the order of the rows.
\<close>

definition table_key :: "row \<Rightarrow> string" where
  "table_key g = template_string (get_prop g ''table_schema'') @ ''.''
                   @ template_string (get_prop g ''table_name'')"

definition column_name :: "row \<Rightarrow> string" where
  "column_name g = template_string (get_prop g ''column_name'')"

definition column_key :: "row \<Rightarrow> string" where
  "column_key g = table_key g @ ''.'' @ column_name g"

definition privilege :: "row \<Rightarrow> jsval option" where
  "privilege g = get_prop g ''privilege_type''"

definition table_grants_by_key ::
  "row list \<Rightarrow> (string \<times> string list \<times> jsval option list) list" where
  "table_grants_by_key grants =
     map (\<lambda>k. let perms = map privilege (filter (\<lambda>g. table_key g = k) grants)
              in (k,
                  filter (\<lambda>kind. Some (JStr kind) \<in> set perms)
                         [''SELECT'', ''INSERT'', ''UPDATE'', ''DELETE''],
                  perms))
         (sorted_list_of_set (table_key ` set grants))"

definition column_grants_by_key ::
  "row list \<Rightarrow> (string \<times> (string \<times> jsval option list) list) list" where
  "column_grants_by_key grants =
     map (\<lambda>k. (k,
               map (\<lambda>c. (c, map privilege
                               (filter (\<lambda>g. table_key g = k \<and> column_name g = c) grants)))
                   (sorted_list_of_set
                      (column_name ` set (filter (\<lambda>g. table_key g = k) grants)))))
         (sorted_list_of_set (table_key ` set grants))"

text \<open>Sample grant rows and a sample report.\<close>

definition grant_row :: "string \<Rightarrow> string \<Rightarrow> string \<Rightarrow> row" where
  "grant_row schema table priv =
     [(''table_catalog'', JStr ''mydb''), (''table_schema'', JStr schema),
      (''table_name'', JStr table), (''privilege_type'', JStr priv)]"

definition column_grant_row :: "string \<Rightarrow> string \<Rightarrow> string \<Rightarrow> string \<Rightarrow> row" where
  "column_grant_row schema table column priv =
     [(''table_catalog'', JStr ''mydb''), (''table_schema'', JStr schema),
      (''table_name'', JStr table), (''column_name'', JStr column),
      (''privilege_type'', JStr priv)]"

definition demo_report :: permissions where
  "demo_report =
     \<lparr>roleDetails = [(''rolname'', JStr ''app_rw''), (''rolsuper'', JBool False),
                     (''rolcreaterole'', JBool False), (''rolcreatedb'', JBool True)],
      tablePermissions =
        [grant_row ''public'' ''orders'' ''INSERT'',
         grant_row ''public'' ''orders'' ''SELECT'',
         grant_row ''public'' ''orders'' ''SELECT'',
         grant_row ''app'' ''users'' ''SELECT''],
      schemaPermissions = [],
      databasePermissions = [],
      columnPermissions =
        [column_grant_row ''public'' ''orders'' ''total'' ''UPDATE'',
         column_grant_row ''public'' ''orders'' ''id'' ''SELECT'',
         column_grant_row ''public'' ''orders'' ''total'' ''SELECT''],
      functionPermissions = [],
      defaultPrivileges = [],
      memberOf = [],
      description = None\<rparr>"

text \<open>An operation was refused: it returned \<^verbatim>\<open>success: false\<close> and the log is as before.\<close>

definition refused :: "op_result io \<Rightarrow> statement list \<Rightarrow> bool" where
  "refused m log =
     (case m log of
        (Inr r, log') \<Rightarrow> success r = False \<and> log' = log
      | (Inl e, log') \<Rightarrow> False)"

section \<open>Reserved names in the user and role services\<close>

lemma refused_return_io:
  "success r = False \<Longrightarrow> refused (return_io r) log"
  by (simp add: refused_def return_io_def)

lemma issued_by_return_io: "issued_by (return_io r) log = []"
  by (simp add: issued_by_def return_io_def)

text \<open>
  Claim C4. For a user or role name that starts with \<open>pg_\<close> or \<open>rds_\<close>, createUser,
  updateUserPassword, deleteUser, createRole and deleteRole return a failure result
  without sending anything: on every handle and after every log, the result has
  \<open>success = False\<close>, the log is unchanged, and no statement was issued.
\<close>

theorem reserved_name_refused_before_any_statement:
  assumes "startsWith name ''pg_'' \<or> startsWith name ''rds_''"
  shows "refused (createUser h name pw) log \<and> issued_by (createUser h name pw) log = []
       \<and> refused (updateUserPassword h name pw) log \<and> issued_by (updateUserPassword h name pw) log = []
       \<and> refused (deleteUser h name) log \<and> issued_by (deleteUser h name) log = []
       \<and> refused (createRole h name) log \<and> issued_by (createRole h name) log = []
       \<and> refused (deleteRole h name) log \<and> issued_by (deleteRole h name) log = []"
  using assms
  by (simp add: createUser_def updateUserPassword_def deleteUser_def createRole_def
      deleteRole_def refused_return_io issued_by_return_io)

theorem reserved_name_refused_witness:
  "(startsWith ''pg_monitor'' ''pg_'' \<or> startsWith ''pg_monitor'' ''rds_'')
   \<and> refused (createUser always_ok ''pg_monitor'' ''s3cret'') []
   \<and> issued_by (createUser always_ok ''pg_monitor'' ''s3cret'') [] = []
   \<and> refused (deleteRole always_ok ''pg_monitor'') []
   \<and> issued_by (deleteRole always_ok ''pg_monitor'') [] = []"
proof -
  have pre: "startsWith ''pg_monitor'' ''pg_'' \<or> startsWith ''pg_monitor'' ''rds_''"
    by (simp add: startsWith_def)
  show ?thesis
    using pre reserved_name_refused_before_any_statement [OF pre, of always_ok "''s3cret''" "[]"]
    by simp
qed

section \<open>The grant and revoke functions as statement sequences\<close>

lemma bind_return_left [simp]: "bind_io (return_io x) f = f x"
  by (simp add: bind_io_def return_io_def)

lemma bind_return_right [simp]: "bind_io m return_io = m"
  by (auto simp: bind_io_def return_io_def fun_eq_iff split: prod.splits sum.splits)

lemma bind_assoc: "bind_io (bind_io m f) g = bind_io m (\<lambda>x. bind_io (f x) g)"
  by (auto simp: bind_io_def fun_eq_iff split: prod.splits sum.splits)

lemma exec_all_append:
  "exec_all h (xs @ ys) = bind_io (exec_all h xs) (\<lambda>_. exec_all h ys)"
  by (induction xs) (simp_all add: bind_assoc)

lemma read_loop_exec:
  "grantReadPermissionsMulti_loop h r ss ms =
     bind_io (exec_all h (concat (map (read_schema_stmts r) ss))) (\<lambda>_. return_io (ms @ ss))"
  by (induction ss arbitrary: ms) (simp_all add: bind_assoc read_schema_stmts_def)

lemma write_loop_exec:
  "grantWritePermissionsMulti_loop h r ss ms =
     bind_io (exec_all h (concat (map (write_schema_stmts r) ss))) (\<lambda>_. return_io (ms @ ss))"
  by (induction ss arbitrary: ms) (simp_all add: bind_assoc write_schema_stmts_def)

lemma exec_all_log:
  "\<exists>n\<le>length sts. snd (exec_all h sts log) = log @ take n sts"
proof (induction sts arbitrary: log)
  case Nil
  then show ?case by (simp add: return_io_def)
next
  case (Cons st sts)
  show ?case
  proof (cases "h log st")
    case (Inl e)
    then have "snd (exec_all h (st # sts) log) = log @ take 1 (st # sts)"
      by (simp add: bind_io_def query_def)
    then show ?thesis by (metis One_nat_def Suc_leI length_Cons zero_less_Suc)
  next
    case (Inr rows)
    from Cons.IH [of "log @ [st]"] obtain n where n: "n \<le> length sts"
      "snd (exec_all h sts (log @ [st])) = (log @ [st]) @ take n sts" by blast
    from Inr n have "snd (exec_all h (st # sts) log) = log @ take (Suc n) (st # sts)"
      by (simp add: bind_io_def query_def)
    with n(1) show ?thesis by (metis Suc_le_mono length_Cons)
  qed
qed

lemma exec_all_Inr:
  "exec_all h sts log = (Inr u, log') \<Longrightarrow> log' = log @ sts"
proof (induction sts arbitrary: log)
  case Nil
  then show ?case by (simp add: return_io_def)
next
  case (Cons st sts)
  show ?case
  proof (cases "h log st")
    case (Inl e)
    with Cons.prems show ?thesis by (simp add: bind_io_def query_def)
  next
    case (Inr rows)
    with Cons.prems have "exec_all h sts (log @ [st]) = (Inr u, log')"
      by (simp add: bind_io_def query_def)
    from Cons.IH [OF this] show ?thesis by simp
  qed
qed

lemma exec_all_never_fails:
  "never_fails h \<Longrightarrow> exec_all h sts log = (Inr (), log @ sts)"
proof (induction sts arbitrary: log)
  case Nil
  then show ?case by (simp add: return_io_def)
next
  case (Cons st sts)
  from Cons.prems obtain rows where "h log st = Inr rows"
    unfolding never_fails_def by blast
  with Cons show ?case by (simp add: bind_io_def query_def)
qed

lemma revoke_loop_exec:
  "revokeAllPermissionsMulti_loop h r ss ms =
     bind_io (exec_all h (concat (map (revoke_schema_stmts r) ss))) (\<lambda>_. return_io (ms @ ss))"
  by (induction ss arbitrary: ms) (simp_all add: bind_assoc revoke_schema_stmts_def)

lemma grantReadPermissions_exec:
  "grantReadPermissions h r d s =
     bind_io (exec_all h (read_phase r d [s]))
       (\<lambda>_. return_io \<lparr>success = True,
               message = ''Read permissions granted to '' @ r @ '' on '' @ d @ ''.'' @ s\<rparr>)"
  by (simp add: grantReadPermissions_def read_phase_def connect_stmt_def read_schema_stmts_def
      bind_assoc)

lemma grantWritePermissions_exec:
  "grantWritePermissions h r d s =
     bind_io (exec_all h (read_phase r d [s] @ write_phase r [s]))
       (\<lambda>_. return_io \<lparr>success = True,
               message = ''Write permissions granted to '' @ r @ '' on '' @ d @ ''.'' @ s\<rparr>)"
  by (simp add: grantWritePermissions_def grantReadPermissions_exec exec_all_append bind_assoc
      write_phase_def write_schema_stmts_def)

lemma grantReadPermissionsMulti_exec:
  "grantReadPermissionsMulti h r d ss =
     bind_io (exec_all h (read_phase r d ss))
       (\<lambda>_. return_io \<lparr>success = True,
               message = ''Read permissions granted to '' @ r @ '' on '' @ d
                           @ '' schemas: '' @ join ss '', ''\<rparr>)"
  by (simp add: grantReadPermissionsMulti_def read_loop_exec read_phase_def connect_stmt_def
      bind_assoc)

lemma grantWritePermissionsMulti_exec:
  "grantWritePermissionsMulti h r d ss =
     bind_io (exec_all h (read_phase r d ss @ write_phase r ss))
       (\<lambda>_. return_io \<lparr>success = True,
               message = ''Write permissions granted to '' @ r @ '' on '' @ d
                           @ '' schemas: '' @ join ss '', ''\<rparr>)"
  by (simp add: grantWritePermissionsMulti_def grantReadPermissionsMulti_exec write_loop_exec
      exec_all_append bind_assoc write_phase_def)

lemma revokeAllPermissionsMulti_exec:
  "revokeAllPermissionsMulti h r d ss =
     bind_io (exec_all h (concat (map (revoke_schema_stmts r) ss) @ [revoke_database_stmt d r]))
       (\<lambda>_. return_io \<lparr>success = True,
               message = ''All permissions revoked from '' @ r @ '' on '' @ d
                           @ '' schemas: '' @ join ss '', ''\<rparr>)"
  by (simp add: revokeAllPermissionsMulti_def revoke_loop_exec exec_all_append bind_assoc
      revoke_database_stmt_def)

lemma revokeAllPermissions_exec:
  "revokeAllPermissions h r d s =
     bind_io (exec_all h (take 3 (revoke_schema_stmts r s) @ revoke_database_stmt d r
                            # drop 3 (revoke_schema_stmts r s)))
       (\<lambda>_. return_io \<lparr>success = True,
               message = ''All permissions revoked from '' @ r @ '' on '' @ d @ ''.'' @ s\<rparr>)"
  by (simp add: revokeAllPermissions_def revoke_schema_stmts_def revoke_database_stmt_def
      bind_assoc)

lemma issued_by_exec_return:
  "issued_by (bind_io (exec_all h sts) (\<lambda>_. return_io x)) log = issued_by (exec_all h sts) log"
  by (auto simp: issued_by_def bind_io_def return_io_def split: prod.splits sum.splits)

lemma issued_by_exec_take:
  "\<exists>n\<le>length sts. issued_by (exec_all h sts) log = take n sts"
  using exec_all_log [of sts h log] by (auto simp: issued_by_def)

lemma issued_by_exec_prefix: "prefix (issued_by (exec_all h sts) log) sts"
  using issued_by_exec_take [of sts h log] by (auto simp: take_is_prefix)

lemma issued_by_exec_append:
  "prefix (issued_by (exec_all h xs) log) (issued_by (exec_all h (xs @ ys)) log)"
proof -
  obtain n where n: "n \<le> length ys"
    "snd (exec_all h ys (snd (exec_all h xs log))) = snd (exec_all h xs log) @ take n ys"
    using exec_all_log [of ys h "snd (exec_all h xs log)"] by blast
  obtain m where m: "snd (exec_all h xs log) = log @ take m xs"
    using exec_all_log [of xs h log] by blast
  show ?thesis
  proof (cases "exec_all h xs log")
    case (Pair res log')
    show ?thesis
    proof (cases res)
      case (Inl e)
      with Pair show ?thesis
        by (simp add: issued_by_def exec_all_append bind_io_def)
    next
      case (Inr u)
      with Pair n m show ?thesis
        by (simp add: issued_by_def exec_all_append bind_io_def)
    qed
  qed
qed

lemma issued_by_never_fails:
  "never_fails h \<Longrightarrow> issued_by (bind_io (exec_all h sts) (\<lambda>_. return_io x)) log = sts"
  unfolding issued_by_exec_return by (simp add: issued_by_def exec_all_never_fails)

lemma outcome_never_fails:
  "never_fails h \<Longrightarrow> outcome (bind_io (exec_all h sts) (\<lambda>_. return_io x)) log = Inr x"
  by (simp add: outcome_def bind_io_def exec_all_never_fails return_io_def)

lemma never_fails_always_ok: "never_fails always_ok"
  by (simp add: never_fails_def always_ok_def)

lemma run_never_fails:
  "never_fails h \<Longrightarrow>
     bind_io (exec_all h sts) (\<lambda>_. return_io x) log = (Inr x, log @ sts)"
  by (simp add: bind_io_def exec_all_never_fails return_io_def)

lemma exec_all_length: "length log \<le> length (snd (exec_all h sts log))"
  using exec_all_log [of sts h log] by auto

lemma issued_by_nonempty:
  assumes "sts \<noteq> []"
  shows "issued_by (bind_io (exec_all h sts) (\<lambda>_. return_io x)) log \<noteq> []"
proof -
  from assms obtain st rest where sts: "sts = st # rest" by (cases sts) auto
  have "length log < length (snd (exec_all h sts log))"
  proof (cases "h log st")
    case (Inl e)
    then show ?thesis by (simp add: sts bind_io_def query_def)
  next
    case (Inr rows)
    then have "snd (exec_all h sts log) = snd (exec_all h rest (log @ [st]))"
      by (simp add: sts bind_io_def query_def)
    with exec_all_length [of "log @ [st]" h rest] show ?thesis by simp
  qed
  then show ?thesis unfolding issued_by_exec_return by (simp add: issued_by_def)
qed

lemma grantReadPermissions_ok:
  "never_fails h \<Longrightarrow> snd (grantReadPermissions h r d s log) = log @ read_phase r d [s]
     \<and> (\<exists>x. fst (grantReadPermissions h r d s log) = Inr x)"
  by (simp only: grantReadPermissions_exec run_never_fails) simp

lemma grantWritePermissions_ok:
  "never_fails h \<Longrightarrow>
     snd (grantWritePermissions h r d s log) = log @ read_phase r d [s] @ write_phase r [s]
     \<and> (\<exists>x. fst (grantWritePermissions h r d s log) = Inr x)"
  by (simp only: grantWritePermissions_exec run_never_fails) simp

lemma revokeAllPermissions_ok:
  "never_fails h \<Longrightarrow>
     snd (revokeAllPermissions h r d s log) =
       log @ take 3 (revoke_schema_stmts r s) @ revoke_database_stmt d r
               # drop 3 (revoke_schema_stmts r s)
     \<and> (\<exists>x. fst (revokeAllPermissions h r d s log) = Inr x)"
  by (simp only: revokeAllPermissions_exec run_never_fails) simp

lemma issued_by_twice:
  assumes "\<And>log. snd (m1 log) = log @ xs \<and> (\<exists>x. fst (m1 log) = Inr x)"
    and "\<And>log. snd (m2 log) = log @ ys \<and> (\<exists>x. fst (m2 log) = Inr x)"
  shows "issued_by (bind_io m1 (\<lambda>_. m2)) log = xs @ ys"
proof -
  from assms(1) [of log] obtain x where "m1 log = (Inr x, log @ xs)"
    by (metis prod.collapse)
  with assms(2) [of "log @ xs"] show ?thesis
    by (simp add: issued_by_def bind_io_def)
qed

lemma connect_not_read: "connect_stmt d r \<notin> set (read_schema_stmts r' s)"
  by (simp add: connect_stmt_def read_schema_stmts_def)

lemma connect_not_write: "connect_stmt d r \<notin> set (write_schema_stmts r' s)"
  by (simp add: connect_stmt_def write_schema_stmts_def)

lemma revoke_database_not_schema: "revoke_database_stmt d r \<notin> set (revoke_schema_stmts r' s)"
  by (simp add: revoke_database_stmt_def revoke_schema_stmts_def)

lemma filter_out_absent: "c \<notin> set xs \<Longrightarrow> filter (\<lambda>st. st \<noteq> c) xs = xs"
  by (induction xs) auto

lemma count_list_absent: "c \<notin> set xs \<Longrightarrow> count_list xs c = 0"
  by (induction xs) auto

lemma count_list_take_drop_absent:
  "c \<notin> set xs \<Longrightarrow> count_list (take n xs) c = 0 \<and> count_list (drop n xs) c = 0"
  by (auto intro!: count_list_absent dest: in_set_takeD in_set_dropD)

lemma read_multi2:
  "never_fails h \<Longrightarrow> issued_by (grantReadPermissionsMulti h r d [s1, s2]) log =
     connect_stmt d r # read_schema_stmts r s1 @ read_schema_stmts r s2"
  by (simp only: grantReadPermissionsMulti_exec issued_by_never_fails) (simp add: read_phase_def)

lemma read_twice2:
  "never_fails h \<Longrightarrow> issued_by (grantRead_twice h r d s1 s2) log =
     connect_stmt d r # read_schema_stmts r s1 @ connect_stmt d r # read_schema_stmts r s2"
  unfolding grantRead_twice_def
  by (subst issued_by_twice [OF grantReadPermissions_ok grantReadPermissions_ok])
     (simp_all add: read_phase_def)

lemma write_multi2:
  "never_fails h \<Longrightarrow> issued_by (grantWritePermissionsMulti h r d [s1, s2]) log =
     connect_stmt d r # read_schema_stmts r s1 @ read_schema_stmts r s2
       @ write_schema_stmts r s1 @ write_schema_stmts r s2"
  by (simp only: grantWritePermissionsMulti_exec issued_by_never_fails)
     (simp add: read_phase_def write_phase_def)

lemma write_twice2:
  "never_fails h \<Longrightarrow> issued_by (grantWrite_twice h r d s1 s2) log =
     connect_stmt d r # read_schema_stmts r s1 @ write_schema_stmts r s1
       @ connect_stmt d r # read_schema_stmts r s2 @ write_schema_stmts r s2"
  unfolding grantWrite_twice_def
  by (subst issued_by_twice [OF grantWritePermissions_ok grantWritePermissions_ok])
     (simp_all add: read_phase_def write_phase_def)

lemma revoke_multi2:
  "never_fails h \<Longrightarrow> issued_by (revokeAllPermissionsMulti h r d [s1, s2]) log =
     revoke_schema_stmts r s1 @ revoke_schema_stmts r s2 @ [revoke_database_stmt d r]"
  by (simp only: revokeAllPermissionsMulti_exec issued_by_never_fails) simp

lemma revoke_twice2:
  "never_fails h \<Longrightarrow> issued_by (revokeAll_twice h r d s1 s2) log =
     take 3 (revoke_schema_stmts r s1) @ revoke_database_stmt d r # drop 3 (revoke_schema_stmts r s1)
     @ take 3 (revoke_schema_stmts r s2) @ revoke_database_stmt d r # drop 3 (revoke_schema_stmts r s2)"
  unfolding revokeAll_twice_def
  by (subst issued_by_twice [OF revokeAllPermissions_ok revokeAllPermissions_ok]) simp_all

lemma filter_take_drop:
  "c \<notin> set xs \<Longrightarrow> filter (\<lambda>st. st \<noteq> c) (take n xs @ c # drop n xs @ ys)
     = xs @ filter (\<lambda>st. st \<noteq> c) ys"
proof -
  assume a: "c \<notin> set xs"
  then have "c \<notin> set (take n xs)" "c \<notin> set (drop n xs)"
    by (auto dest: in_set_takeD in_set_dropD)
  then show ?thesis by (simp add: filter_out_absent)
qed

section \<open>Write grants extend read grants\<close>

text \<open>
  Claim C3. For every role, database and schema, on every handle and after every log, the
  statements issued by grantWritePermissions begin with exactly the statements issued by
  grantReadPermissions, so every statement of the read grant is also a statement of the
  write grant, in the same order.
\<close>

theorem write_grant_extends_read_grant:
  "prefix (issued_by (grantReadPermissions h r d s) log)
          (issued_by (grantWritePermissions h r d s) log)
   \<and> set (issued_by (grantReadPermissions h r d s) log)
       \<subseteq> set (issued_by (grantWritePermissions h r d s) log)"
proof -
  have "prefix (issued_by (grantReadPermissions h r d s) log)
          (issued_by (grantWritePermissions h r d s) log)"
    by (simp only: grantReadPermissions_exec grantWritePermissions_exec issued_by_exec_return
        issued_by_exec_append)
  then show ?thesis by (auto dest: set_mono_prefix)
qed


theorem write_grant_extends_read_grant_witness:
  "issued_by (grantReadPermissions always_ok ''app_read_only'' ''mydb'' ''public'') [] =
     [(''GRANT CONNECT ON DATABASE mydb TO app_read_only;'', []),
      (''GRANT USAGE ON SCHEMA public TO app_read_only;'', []),
      (''GRANT SELECT ON ALL TABLES IN SCHEMA public TO app_read_only;'', []),
      (''ALTER DEFAULT PRIVILEGES IN SCHEMA public GRANT SELECT ON TABLES TO app_read_only;'', [])]
   \<and> prefix (issued_by (grantReadPermissions always_ok ''app_read_only'' ''mydb'' ''public'') [])
          (issued_by (grantWritePermissions always_ok ''app_read_only'' ''mydb'' ''public'') [])
   \<and> set (issued_by (grantReadPermissions always_ok ''app_read_only'' ''mydb'' ''public'') [])
       \<subseteq> set (issued_by (grantWritePermissions always_ok ''app_read_only'' ''mydb'' ''public'') [])"
proof -
  have "issued_by (grantReadPermissions always_ok ''app_read_only'' ''mydb'' ''public'') [] =
     [(''GRANT CONNECT ON DATABASE mydb TO app_read_only;'', []),
      (''GRANT USAGE ON SCHEMA public TO app_read_only;'', []),
      (''GRANT SELECT ON ALL TABLES IN SCHEMA public TO app_read_only;'', []),
      (''ALTER DEFAULT PRIVILEGES IN SCHEMA public GRANT SELECT ON TABLES TO app_read_only;'', [])]"
    by (simp add: grantReadPermissions_def issued_by_def bind_io_def query_def return_io_def
        always_ok_def)
  with write_grant_extends_read_grant [of always_ok "''app_read_only''" "''mydb''" "''public''" "[]"]
  show ?thesis by blast
qed

section \<open>Multi-schema operations against sequential single-schema calls\<close>

text \<open>
  Claim C2. On a handle where no statement fails, for every role, database and schemas
  \<open>s1\<close>, \<open>s2\<close>: each multi-schema operation on \<open>[s1, s2]\<close> issues the same set of
  statements as two sequential single-schema calls on \<open>s1\<close> then \<open>s2\<close>; leaving the
  database-level statement aside, the per-schema statements agree (as sequences for read
  and revoke, as multisets for write, whose multi-schema form sends all read statements
  first); and GRANT CONNECT ON DATABASE is issued exactly once by the multi-schema read
  and write grants, against twice by the two single calls. (The database-level REVOKE is
  likewise sent once by the multi-schema revocation, after the loop, and twice by the two
  single calls.)
\<close>

theorem multi_schema_matches_two_single_calls:
  assumes "never_fails h"
  shows "set (issued_by (grantReadPermissionsMulti h r d [s1, s2]) log)
           = set (issued_by (grantRead_twice h r d s1 s2) log)
       \<and> filter (\<lambda>st. st \<noteq> connect_stmt d r) (issued_by (grantReadPermissionsMulti h r d [s1, s2]) log)
           = filter (\<lambda>st. st \<noteq> connect_stmt d r) (issued_by (grantRead_twice h r d s1 s2) log)
       \<and> count_list (issued_by (grantReadPermissionsMulti h r d [s1, s2]) log) (connect_stmt d r) = 1
       \<and> count_list (issued_by (grantRead_twice h r d s1 s2) log) (connect_stmt d r) = 2
       \<and> set (issued_by (grantWritePermissionsMulti h r d [s1, s2]) log)
           = set (issued_by (grantWrite_twice h r d s1 s2) log)
       \<and> mset (filter (\<lambda>st. st \<noteq> connect_stmt d r) (issued_by (grantWritePermissionsMulti h r d [s1, s2]) log))
           = mset (filter (\<lambda>st. st \<noteq> connect_stmt d r) (issued_by (grantWrite_twice h r d s1 s2) log))
       \<and> count_list (issued_by (grantWritePermissionsMulti h r d [s1, s2]) log) (connect_stmt d r) = 1
       \<and> count_list (issued_by (grantWrite_twice h r d s1 s2) log) (connect_stmt d r) = 2
       \<and> set (issued_by (revokeAllPermissionsMulti h r d [s1, s2]) log)
           = set (issued_by (revokeAll_twice h r d s1 s2) log)
       \<and> filter (\<lambda>st. st \<noteq> revoke_database_stmt d r) (issued_by (revokeAllPermissionsMulti h r d [s1, s2]) log)
           = filter (\<lambda>st. st \<noteq> revoke_database_stmt d r) (issued_by (revokeAll_twice h r d s1 s2) log)
       \<and> count_list (issued_by (revokeAllPermissionsMulti h r d [s1, s2]) log) (revoke_database_stmt d r) = 1
       \<and> count_list (issued_by (revokeAll_twice h r d s1 s2) log) (revoke_database_stmt d r) = 2"
proof -
  note nr = connect_not_read [of d r r] connect_not_write [of d r r]
  note ca = count_list_absent [OF connect_not_read [of d r r]]
    count_list_absent [OF connect_not_write [of d r r]]
  note fa = filter_out_absent [OF connect_not_read [of d r r]]
    filter_out_absent [OF connect_not_write [of d r r]]
  have r1: "set (issued_by (grantReadPermissionsMulti h r d [s1, s2]) log)
           = set (issued_by (grantRead_twice h r d s1 s2) log)"
    by (auto simp: read_multi2 [OF assms] read_twice2 [OF assms])
  have r2: "filter (\<lambda>st. st \<noteq> connect_stmt d r) (issued_by (grantReadPermissionsMulti h r d [s1, s2]) log)
           = filter (\<lambda>st. st \<noteq> connect_stmt d r) (issued_by (grantRead_twice h r d s1 s2) log)"
    by (simp add: read_multi2 [OF assms] read_twice2 [OF assms])
  have r3: "count_list (issued_by (grantReadPermissionsMulti h r d [s1, s2]) log) (connect_stmt d r) = 1"
    by (simp add: read_multi2 [OF assms] ca)
  have r4: "count_list (issued_by (grantRead_twice h r d s1 s2) log) (connect_stmt d r) = 2"
    by (simp add: read_twice2 [OF assms] ca)
  have w1: "set (issued_by (grantWritePermissionsMulti h r d [s1, s2]) log)
           = set (issued_by (grantWrite_twice h r d s1 s2) log)"
    by (auto simp: write_multi2 [OF assms] write_twice2 [OF assms])
  have w2: "mset (filter (\<lambda>st. st \<noteq> connect_stmt d r) (issued_by (grantWritePermissionsMulti h r d [s1, s2]) log))
           = mset (filter (\<lambda>st. st \<noteq> connect_stmt d r) (issued_by (grantWrite_twice h r d s1 s2) log))"
    by (simp add: write_multi2 [OF assms] write_twice2 [OF assms] fa)
  have w3: "count_list (issued_by (grantWritePermissionsMulti h r d [s1, s2]) log) (connect_stmt d r) = 1"
    by (simp add: write_multi2 [OF assms] ca)
  have w4: "count_list (issued_by (grantWrite_twice h r d s1 s2) log) (connect_stmt d r) = 2"
    by (simp add: write_twice2 [OF assms] ca)
  have td: "set (take 3 (revoke_schema_stmts r s)) \<union> set (drop 3 (revoke_schema_stmts r s))
           = set (revoke_schema_stmts r s)" for s
    using set_append [of "take 3 (revoke_schema_stmts r s)" "drop 3 (revoke_schema_stmts r s)"]
    by (simp only: append_take_drop_id)
  have v1: "set (issued_by (revokeAllPermissionsMulti h r d [s1, s2]) log)
           = set (issued_by (revokeAll_twice h r d s1 s2) log)"
    using td [of s1] td [of s2]
    by (auto simp: revoke_multi2 [OF assms] revoke_twice2 [OF assms])
  have v2: "filter (\<lambda>st. st \<noteq> revoke_database_stmt d r) (issued_by (revokeAllPermissionsMulti h r d [s1, s2]) log)
           = filter (\<lambda>st. st \<noteq> revoke_database_stmt d r) (issued_by (revokeAll_twice h r d s1 s2) log)"
    using filter_take_drop [OF revoke_database_not_schema [of d r r s1], of 3]
      filter_take_drop [OF revoke_database_not_schema [of d r r s2], of 3 "[]"]
    by (simp add: revoke_multi2 [OF assms] revoke_twice2 [OF assms]
        filter_out_absent [OF revoke_database_not_schema [of d r r]])
  note cv = count_list_absent [OF revoke_database_not_schema [of d r r]]
    count_list_take_drop_absent [OF revoke_database_not_schema [of d r r]]
  have v3: "count_list (issued_by (revokeAllPermissionsMulti h r d [s1, s2]) log) (revoke_database_stmt d r) = 1"
    by (simp add: revoke_multi2 [OF assms] cv)
  have v4: "count_list (issued_by (revokeAll_twice h r d s1 s2) log) (revoke_database_stmt d r) = 2"
    by (simp add: revoke_twice2 [OF assms] cv)
  from r1 r2 r3 r4 w1 w2 w3 w4 v1 v2 v3 v4 show ?thesis by blast
qed


theorem multi_schema_matches_two_single_calls_witness:
  "never_fails always_ok
   \<and> issued_by (grantReadPermissionsMulti always_ok ''app'' ''mydb'' [''public'', ''sales'']) [] =
       [(''GRANT CONNECT ON DATABASE mydb TO app;'', []),
        (''GRANT USAGE ON SCHEMA public TO app;'', []),
        (''GRANT SELECT ON ALL TABLES IN SCHEMA public TO app;'', []),
        (''ALTER DEFAULT PRIVILEGES IN SCHEMA public GRANT SELECT ON TABLES TO app;'', []),
        (''GRANT USAGE ON SCHEMA sales TO app;'', []),
        (''GRANT SELECT ON ALL TABLES IN SCHEMA sales TO app;'', []),
        (''ALTER DEFAULT PRIVILEGES IN SCHEMA sales GRANT SELECT ON TABLES TO app;'', [])]
   \<and> set (issued_by (grantReadPermissionsMulti always_ok ''app'' ''mydb'' [''public'', ''sales'']) [])
       = set (issued_by (grantRead_twice always_ok ''app'' ''mydb'' ''public'' ''sales'') [])
   \<and> count_list (issued_by (grantWritePermissionsMulti always_ok ''app'' ''mydb'' [''public'', ''sales'']) [])
        (connect_stmt ''mydb'' ''app'') = 1
   \<and> set (issued_by (revokeAllPermissionsMulti always_ok ''app'' ''mydb'' [''public'', ''sales'']) [])
       = set (issued_by (revokeAll_twice always_ok ''app'' ''mydb'' ''public'' ''sales'') [])"
proof -
  have "issued_by (grantReadPermissionsMulti always_ok ''app'' ''mydb'' [''public'', ''sales'']) [] =
       [(''GRANT CONNECT ON DATABASE mydb TO app;'', []),
        (''GRANT USAGE ON SCHEMA public TO app;'', []),
        (''GRANT SELECT ON ALL TABLES IN SCHEMA public TO app;'', []),
        (''ALTER DEFAULT PRIVILEGES IN SCHEMA public GRANT SELECT ON TABLES TO app;'', []),
        (''GRANT USAGE ON SCHEMA sales TO app;'', []),
        (''GRANT SELECT ON ALL TABLES IN SCHEMA sales TO app;'', []),
        (''ALTER DEFAULT PRIVILEGES IN SCHEMA sales GRANT SELECT ON TABLES TO app;'', [])]"
    by (simp add: grantReadPermissionsMulti_def issued_by_def bind_io_def query_def return_io_def
        always_ok_def)
  with never_fails_always_ok
    multi_schema_matches_two_single_calls [OF never_fails_always_ok,
      of "''app''" "''mydb''" "''public''" "''sales''" "[]"]
  show ?thesis by blast
qed

section \<open>Read phase before write phase in the multi-schema write grant\<close>

lemma exec_all_fail_first:
  "h log st = Inl e \<Longrightarrow> exec_all h (st # sts) log = (Inl e, log @ [st])"
  by (simp add: bind_io_def query_def)

lemma read_multi_done:
  assumes "outcome (grantReadPermissionsMulti h r d ss) log = Inr res"
  shows "exec_all h (read_phase r d ss) log = (Inr (), log @ read_phase r d ss)"
proof (cases "exec_all h (read_phase r d ss) log")
  case (Pair x log')
  with assms obtain u where "x = Inr u"
    by (cases x) (simp_all add: outcome_def grantReadPermissionsMulti_exec bind_io_def)
  with Pair exec_all_Inr [of h "read_phase r d ss" log u log'] show ?thesis by simp
qed

text \<open>
  Claim C9. In grantWritePermissionsMulti, on every handle, the statements issued are an
  initial part of the read phase (one GRANT CONNECT, then USAGE, SELECT and default SELECT
  for each schema in list order) followed by the write phase, and they begin with whatever
  grantReadPermissionsMulti issues; so no write statement is sent before every read
  statement has been: once more statements are out than the read phase has, the whole
  read phase is among them. Consequently, when the read phase succeeds and the first write
  statement of the first schema fails with \<open>e\<close>, the call rejects with \<open>e\<close> having issued
  the whole read phase, for every schema of the list, and that one write statement.
\<close>

theorem write_multi_read_phase_first:
  "prefix (issued_by (grantWritePermissionsMulti h r d schemas) log)
          (read_phase r d schemas @ write_phase r schemas)
   \<and> prefix (issued_by (grantReadPermissionsMulti h r d schemas) log)
            (issued_by (grantWritePermissionsMulti h r d schemas) log)
   \<and> (length (read_phase r d schemas)
          < length (issued_by (grantWritePermissionsMulti h r d schemas) log)
      \<longrightarrow> prefix (read_phase r d schemas)
            (issued_by (grantWritePermissionsMulti h r d schemas) log))
   \<and> (outcome (grantReadPermissionsMulti h r d (s # rest)) log = Inr res
        \<and> h (log @ read_phase r d (s # rest))
             (''GRANT INSERT, UPDATE, DELETE ON ALL TABLES IN SCHEMA '' @ s @ '' TO '' @ r @ '';'', [])
            = Inl e
      \<longrightarrow> outcome (grantWritePermissionsMulti h r d (s # rest)) log = Inl e
        \<and> issued_by (grantWritePermissionsMulti h r d (s # rest)) log
            = read_phase r d (s # rest)
              @ [(''GRANT INSERT, UPDATE, DELETE ON ALL TABLES IN SCHEMA '' @ s @ '' TO '' @ r @ '';'', [])])"
proof -
  have a: "prefix (issued_by (grantWritePermissionsMulti h r d schemas) log)
          (read_phase r d schemas @ write_phase r schemas)"
    by (simp only: grantWritePermissionsMulti_exec issued_by_exec_return issued_by_exec_prefix)
  have b: "prefix (issued_by (grantReadPermissionsMulti h r d schemas) log)
            (issued_by (grantWritePermissionsMulti h r d schemas) log)"
    by (simp only: grantReadPermissionsMulti_exec grantWritePermissionsMulti_exec
        issued_by_exec_return issued_by_exec_append)
  have c: "outcome (grantWritePermissionsMulti h r d (s # rest)) log = Inl e
        \<and> issued_by (grantWritePermissionsMulti h r d (s # rest)) log
            = read_phase r d (s # rest)
              @ [(''GRANT INSERT, UPDATE, DELETE ON ALL TABLES IN SCHEMA '' @ s @ '' TO '' @ r @ '';'', [])]"
    if ok: "outcome (grantReadPermissionsMulti h r d (s # rest)) log = Inr res"
      and bad: "h (log @ read_phase r d (s # rest))
             (''GRANT INSERT, UPDATE, DELETE ON ALL TABLES IN SCHEMA '' @ s @ '' TO '' @ r @ '';'', [])
            = Inl e"
  proof -
    obtain ws where ws: "write_phase r (s # rest) =
        (''GRANT INSERT, UPDATE, DELETE ON ALL TABLES IN SCHEMA '' @ s @ '' TO '' @ r @ '';'', []) # ws"
      by (simp add: write_phase_def write_schema_stmts_def)
    have "exec_all h (read_phase r d (s # rest) @ write_phase r (s # rest)) log
            = (Inl e, log @ read_phase r d (s # rest)
                 @ [(''GRANT INSERT, UPDATE, DELETE ON ALL TABLES IN SCHEMA '' @ s @ '' TO '' @ r @ '';'', [])])"
      unfolding exec_all_append ws
      using exec_all_fail_first [of h "log @ read_phase r d (s # rest)" _ e ws] bad
      by (simp add: bind_io_def read_multi_done [OF ok] del: exec_all.simps)
    then show ?thesis
      by (simp add: grantWritePermissionsMulti_exec outcome_def issued_by_def bind_io_def
          del: exec_all.simps)
  qed
  have d: "prefix (read_phase r d schemas)
            (issued_by (grantWritePermissionsMulti h r d schemas) log)"
    if "length (read_phase r d schemas)
          < length (issued_by (grantWritePermissionsMulti h r d schemas) log)"
  proof -
    have "prefix (read_phase r d schemas) (read_phase r d schemas @ write_phase r schemas)"
      by simp
    from prefix_length_prefix [OF this a] that show ?thesis by simp
  qed
  from a b c d show ?thesis by blast
qed


theorem write_multi_read_phase_first_witness:
  "outcome (grantReadPermissionsMulti
              (fails_on (''GRANT INSERT, UPDATE, DELETE ON ALL TABLES IN SCHEMA public TO app;'', [])
                        (DbError ''permission denied''))
              ''app'' ''mydb'' [''public'', ''sales'']) []
     = Inr \<lparr>success = True, message = ''Read permissions granted to app on mydb schemas: public, sales''\<rparr>
   \<and> outcome (grantWritePermissionsMulti
              (fails_on (''GRANT INSERT, UPDATE, DELETE ON ALL TABLES IN SCHEMA public TO app;'', [])
                        (DbError ''permission denied''))
              ''app'' ''mydb'' [''public'', ''sales'']) []
     = Inl (DbError ''permission denied'')
   \<and> issued_by (grantWritePermissionsMulti
              (fails_on (''GRANT INSERT, UPDATE, DELETE ON ALL TABLES IN SCHEMA public TO app;'', [])
                        (DbError ''permission denied''))
              ''app'' ''mydb'' [''public'', ''sales'']) []
     = [(''GRANT CONNECT ON DATABASE mydb TO app;'', []),
        (''GRANT USAGE ON SCHEMA public TO app;'', []),
        (''GRANT SELECT ON ALL TABLES IN SCHEMA public TO app;'', []),
        (''ALTER DEFAULT PRIVILEGES IN SCHEMA public GRANT SELECT ON TABLES TO app;'', []),
        (''GRANT USAGE ON SCHEMA sales TO app;'', []),
        (''GRANT SELECT ON ALL TABLES IN SCHEMA sales TO app;'', []),
        (''ALTER DEFAULT PRIVILEGES IN SCHEMA sales GRANT SELECT ON TABLES TO app;'', []),
        (''GRANT INSERT, UPDATE, DELETE ON ALL TABLES IN SCHEMA public TO app;'', [])]"
proof -
  let ?h = "fails_on (''GRANT INSERT, UPDATE, DELETE ON ALL TABLES IN SCHEMA public TO app;'', [])
                     (DbError ''permission denied'')"
  have ok: "outcome (grantReadPermissionsMulti ?h ''app'' ''mydb'' [''public'', ''sales'']) []
     = Inr \<lparr>success = True, message = ''Read permissions granted to app on mydb schemas: public, sales''\<rparr>"
    by (simp add: grantReadPermissionsMulti_def outcome_def bind_io_def query_def return_io_def
        fails_on_def)
  have bad: "?h ([] @ read_phase ''app'' ''mydb'' (''public'' # [''sales'']))
      (''GRANT INSERT, UPDATE, DELETE ON ALL TABLES IN SCHEMA '' @ ''public'' @ '' TO '' @ ''app'' @ '';'', [])
     = Inl (DbError ''permission denied'')"
    by (simp add: fails_on_def)
  from write_multi_read_phase_first [of ?h "''app''" "''mydb''" "[''public'', ''sales'']" "[]"
      "''public''" "[''sales'']" _ "DbError ''permission denied''"] ok bad
  have "outcome (grantWritePermissionsMulti ?h ''app'' ''mydb'' [''public'', ''sales'']) []
          = Inl (DbError ''permission denied'')
      \<and> issued_by (grantWritePermissionsMulti ?h ''app'' ''mydb'' [''public'', ''sales'']) []
          = read_phase ''app'' ''mydb'' [''public'', ''sales'']
            @ [(''GRANT INSERT, UPDATE, DELETE ON ALL TABLES IN SCHEMA '' @ ''public'' @ '' TO '' @ ''app'' @ '';'', [])]"
    by blast
  with ok show ?thesis
    by (simp add: read_phase_def connect_stmt_def read_schema_stmts_def)
qed

section \<open>Which operations check the reserved prefixes\<close>

text \<open>
  Claim C1 as stated fails: the grant, revoke and membership functions have no reserved
  prefix check. For the role \<open>pg_monitor\<close>, grantReadPermissions sends its four statements
  and reports success, and assignUserToRole sends its GRANT and reports success.
\<close>

theorem unguarded_operations_counterexample:
  "startsWith ''pg_monitor'' ''pg_''
   \<and> grantReadPermissions always_ok ''pg_monitor'' ''mydb'' ''public'' [] =
       (Inr \<lparr>success = True, message = ''Read permissions granted to pg_monitor on mydb.public''\<rparr>,
        [(''GRANT CONNECT ON DATABASE mydb TO pg_monitor;'', []),
         (''GRANT USAGE ON SCHEMA public TO pg_monitor;'', []),
         (''GRANT SELECT ON ALL TABLES IN SCHEMA public TO pg_monitor;'', []),
         (''ALTER DEFAULT PRIVILEGES IN SCHEMA public GRANT SELECT ON TABLES TO pg_monitor;'', [])])
   \<and> assignUserToRole always_ok ''alice'' ''pg_monitor'' [] =
       (Inr \<lparr>success = True, message = ''User alice assigned to role pg_monitor successfully''\<rparr>,
        [(''GRANT pg_monitor TO alice;'', [])])"
  by (simp add: startsWith_def grantReadPermissions_def assignUserToRole_def bind_io_def
      query_def return_io_def always_ok_def)

lemma issued_by_single_query:
  "issued_by (bind_io (query h t p) (\<lambda>_. return_io x)) log = [(t, p)]"
  by (cases "h log (t, p)") (simp_all add: issued_by_def bind_io_def query_def return_io_def)

lemma read_phase_nonempty: "read_phase r d ss \<noteq> []"
  by (simp add: read_phase_def)

text \<open>
  Claim C1, amended. For a name that starts with \<open>pg_\<close> or \<open>rds_\<close>, createUser,
  updateUserPassword, deleteUser, createRole and deleteRole return a failure result and
  issue no statement. The other mutating operations make no such check: on every handle,
  assignUserToRole and removeUserFromRole issue their one statement for that role, and
  the three grant and revoke functions and their multi-schema variants issue at least one
  statement.
\<close>

theorem reserved_prefix_guard_scope:
  assumes "startsWith name ''pg_'' \<or> startsWith name ''rds_''"
  shows "refused (createUser h name pw) log
       \<and> refused (updateUserPassword h name pw) log
       \<and> refused (deleteUser h name) log
       \<and> refused (createRole h name) log
       \<and> refused (deleteRole h name) log
       \<and> issued_by (assignUserToRole h u name) log = [(''GRANT '' @ name @ '' TO '' @ u @ '';'', [])]
       \<and> issued_by (removeUserFromRole h u name) log = [(''REVOKE '' @ name @ '' FROM '' @ u @ '';'', [])]
       \<and> issued_by (grantReadPermissions h name d s) log \<noteq> []
       \<and> issued_by (grantWritePermissions h name d s) log \<noteq> []
       \<and> issued_by (revokeAllPermissions h name d s) log \<noteq> []
       \<and> issued_by (grantReadPermissionsMulti h name d ss) log \<noteq> []
       \<and> issued_by (grantWritePermissionsMulti h name d ss) log \<noteq> []
       \<and> issued_by (revokeAllPermissionsMulti h name d ss) log \<noteq> []"
proof -
  have guarded: "refused (createUser h name pw) log
       \<and> refused (updateUserPassword h name pw) log
       \<and> refused (deleteUser h name) log
       \<and> refused (createRole h name) log
       \<and> refused (deleteRole h name) log"
    using assms
    by (simp add: createUser_def updateUserPassword_def deleteUser_def createRole_def
        deleteRole_def refused_return_io)
  have membership:
    "issued_by (assignUserToRole h u name) log = [(''GRANT '' @ name @ '' TO '' @ u @ '';'', [])]
     \<and> issued_by (removeUserFromRole h u name) log = [(''REVOKE '' @ name @ '' FROM '' @ u @ '';'', [])]"
    by (simp add: assignUserToRole_def removeUserFromRole_def issued_by_single_query)
  have single: "issued_by (grantReadPermissions h name d s) log \<noteq> []
       \<and> issued_by (grantWritePermissions h name d s) log \<noteq> []
       \<and> issued_by (revokeAllPermissions h name d s) log \<noteq> []"
    by (simp only: grantReadPermissions_exec grantWritePermissions_exec revokeAllPermissions_exec)
       (simp add: issued_by_nonempty read_phase_nonempty del: exec_all.simps)
  have multi: "issued_by (grantReadPermissionsMulti h name d ss) log \<noteq> []
       \<and> issued_by (grantWritePermissionsMulti h name d ss) log \<noteq> []
       \<and> issued_by (revokeAllPermissionsMulti h name d ss) log \<noteq> []"
    by (simp only: grantReadPermissionsMulti_exec grantWritePermissionsMulti_exec
          revokeAllPermissionsMulti_exec)
       (simp add: issued_by_nonempty read_phase_nonempty del: exec_all.simps)
  from guarded membership single multi show ?thesis by blast
qed

theorem reserved_prefix_guard_scope_witness:
  "(startsWith ''rds_admin'' ''pg_'' \<or> startsWith ''rds_admin'' ''rds_'')
   \<and> refused (deleteUser always_ok ''rds_admin'') []
   \<and> issued_by (assignUserToRole always_ok ''alice'' ''rds_admin'') [] = [(''GRANT rds_admin TO alice;'', [])]
   \<and> issued_by (revokeAllPermissionsMulti always_ok ''rds_admin'' ''mydb'' []) [] \<noteq> []"
proof -
  have pre: "startsWith ''rds_admin'' ''pg_'' \<or> startsWith ''rds_admin'' ''rds_''"
    by (simp add: startsWith_def)
  from reserved_prefix_guard_scope [OF pre, of always_ok _ "[]" "''alice''" _ _ "[]"] pre
  show ?thesis by simp
qed


section \<open>The permission report is all or nothing\<close>

lemma listPermissions_exec:
  "map_sum id (\<lambda>_. ()) (fst (listPermissions h r log)) = fst (exec_all h (listPermissions_queries r) log)
   \<and> snd (listPermissions h r log) = snd (exec_all h (listPermissions_queries r) log)"
  by (simp add: listPermissions_def listPermissions_queries_def bind_io_def query_def
      return_io_def Let_def split: sum.splits)

lemma exec_all_fail_at:
  assumes "i < length sts"
    and "\<forall>j<i. \<exists>rows. h (log @ take j sts) (sts ! j) = Inr rows"
    and "h (log @ take i sts) (sts ! i) = Inl e"
  shows "exec_all h sts log = (Inl e, log @ take (Suc i) sts)"
  using assms
proof (induction sts arbitrary: i log)
  case Nil
  then show ?case by simp
next
  case (Cons st sts)
  show ?case
  proof (cases i)
    case 0
    with Cons.prems show ?thesis by (simp add: bind_io_def query_def)
  next
    case (Suc i')
    from Cons.prems(2) Suc obtain rows where r0: "h log st = Inr rows"
      by (metis append_Nil2 nth_Cons_0 take_0 zero_less_Suc)
    have a: "i' < length sts" using Cons.prems(1) Suc by simp
    have b: "\<forall>j<i'. \<exists>rows. h ((log @ [st]) @ take j sts) (sts ! j) = Inr rows"
    proof (intro allI impI)
      fix j assume "j < i'"
      then have "Suc j < i" using Suc by simp
      with Cons.prems(2) obtain rows where "h (log @ take (Suc j) (st # sts)) ((st # sts) ! Suc j) = Inr rows"
        by blast
      then show "\<exists>rows. h ((log @ [st]) @ take j sts) (sts ! j) = Inr rows" by simp
    qed
    have c: "h ((log @ [st]) @ take i' sts) (sts ! i') = Inl e"
      using Cons.prems(3) Suc by simp
    from Cons.IH [OF a b c] r0 Suc show ?thesis
      by (simp add: bind_io_def query_def)
  qed
qed

lemma exec_all_all_ok:
  assumes "fst (exec_all h sts log) = Inr u" and "i < length sts"
  shows "\<exists>rows. h (log @ take i sts) (sts ! i) = Inr rows"
  using assms
proof (induction sts arbitrary: i log)
  case Nil
  then show ?case by simp
next
  case (Cons st sts)
  from Cons.prems(1) obtain rows where r0: "h log st = Inr rows"
    by (cases "h log st") (simp_all add: bind_io_def query_def)
  show ?case
  proof (cases i)
    case 0
    with r0 show ?thesis by simp
  next
    case (Suc i')
    from Cons.prems(1) r0 have "fst (exec_all h sts (log @ [st])) = Inr u"
      by (simp add: bind_io_def query_def)
    from Cons.IH [OF this, of i'] Cons.prems(2) Suc show ?thesis by simp
  qed
qed

text \<open>
  Claim C5. For every role name and handle: if the \<open>i\<close>-th of the six sub-queries of
  listPermissions (role attributes, table privileges, role memberships, column privileges,
  schema privileges, database privileges) is the first to fail, with error \<open>e\<close>, then
  listPermissions rejects with that same \<open>e\<close>, returns no report, and sends nothing after
  the failed query; and a report is returned only when each of the six succeeded.
\<close>

theorem listPermissions_all_or_nothing:
  "(i < length (listPermissions_queries r)
      \<and> (\<forall>j<i. \<exists>rows. h (log @ take j (listPermissions_queries r)) (listPermissions_queries r ! j) = Inr rows)
      \<and> h (log @ take i (listPermissions_queries r)) (listPermissions_queries r ! i) = Inl e
     \<longrightarrow> outcome (listPermissions h r) log = Inl e
       \<and> issued_by (listPermissions h r) log = take (Suc i) (listPermissions_queries r))
   \<and> (outcome (listPermissions h r) log = Inr report
     \<longrightarrow> (\<forall>i<length (listPermissions_queries r).
            \<exists>rows. h (log @ take i (listPermissions_queries r)) (listPermissions_queries r ! i) = Inr rows))
   \<and> length (listPermissions_queries r) = 6"
proof -
  have a: "outcome (listPermissions h r) log = Inl e
       \<and> issued_by (listPermissions h r) log = take (Suc i) (listPermissions_queries r)"
    if "i < length (listPermissions_queries r)"
      and "\<forall>j<i. \<exists>rows. h (log @ take j (listPermissions_queries r)) (listPermissions_queries r ! j) = Inr rows"
      and "h (log @ take i (listPermissions_queries r)) (listPermissions_queries r ! i) = Inl e"
  proof -
    from exec_all_fail_at [OF that]
    have ex: "exec_all h (listPermissions_queries r) log
              = (Inl e, log @ take (Suc i) (listPermissions_queries r))" .
    with listPermissions_exec [of h r log]
    have "map_sum id (\<lambda>_. ()) (fst (listPermissions h r log)) = Inl e"
      and "snd (listPermissions h r log) = log @ take (Suc i) (listPermissions_queries r)"
      by simp_all
    then show ?thesis
      by (cases "fst (listPermissions h r log)") (simp_all add: outcome_def issued_by_def)
  qed
  have b: "\<forall>i<length (listPermissions_queries r).
            \<exists>rows. h (log @ take i (listPermissions_queries r)) (listPermissions_queries r ! i) = Inr rows"
    if "outcome (listPermissions h r) log = Inr report"
  proof -
    from that listPermissions_exec [of h r log]
    have "fst (exec_all h (listPermissions_queries r) log) = Inr ()"
      by (simp add: outcome_def)
    then show ?thesis using exec_all_all_ok by blast
  qed
  have c: "length (listPermissions_queries r) = 6"
    by (simp add: listPermissions_queries_def)
  from a b c show ?thesis by blast
qed

theorem listPermissions_all_or_nothing_witness:
  "outcome (listPermissions (fails_on (listPermissions_memberOf_sql, [''app''])
                                      (DbError ''connection lost'')) ''app'') []
     = Inl (DbError ''connection lost'')
   \<and> issued_by (listPermissions (fails_on (listPermissions_memberOf_sql, [''app''])
                                          (DbError ''connection lost'')) ''app'') []
     = [(listPermissions_roleInfo_sql, [''app'']),
        (listPermissions_tablePerms_sql, [''app'']),
        (listPermissions_memberOf_sql, [''app''])]"
proof -
  let ?h = "fails_on (listPermissions_memberOf_sql, [''app'']) (DbError ''connection lost'')"
  let ?qs = "listPermissions_queries ''app''"
  have ne: "listPermissions_roleInfo_sql \<noteq> listPermissions_memberOf_sql"
    "listPermissions_tablePerms_sql \<noteq> listPermissions_memberOf_sql"
    by (simp_all add: listPermissions_roleInfo_sql_def listPermissions_tablePerms_sql_def
        listPermissions_memberOf_sql_def)
  have len: "2 < length ?qs" by (simp add: listPermissions_queries_def)
  have before: "\<forall>j<2. \<exists>rows. ?h ([] @ take j ?qs) (?qs ! j) = Inr rows"
  proof (intro allI impI)
    fix j :: nat assume "j < 2"
    then have "j = 0 \<or> j = 1" by auto
    then show "\<exists>rows. ?h ([] @ take j ?qs) (?qs ! j) = Inr rows"
      using ne by (auto simp: listPermissions_queries_def fails_on_def)
  qed
  have at: "?h ([] @ take 2 ?qs) (?qs ! 2) = Inl (DbError ''connection lost'')"
    by (simp add: listPermissions_queries_def fails_on_def)
  from listPermissions_all_or_nothing [of 2 "''app''" ?h "[]" "DbError ''connection lost''"]
    len before at
  have "outcome (listPermissions ?h ''app'') [] = Inl (DbError ''connection lost'')
       \<and> issued_by (listPermissions ?h ''app'') [] = take (Suc 2) ?qs"
    by blast
  then show ?thesis by (simp add: listPermissions_queries_def)
qed

section \<open>Fields of the report that no query fills\<close>

lemma listPermissions_fixed_fields:
  "fst (listPermissions h r log) = Inr report \<Longrightarrow>
     functionPermissions report = [] \<and> defaultPrivileges report = [] \<and> description report = None"
  by (auto simp: listPermissions_def bind_io_def query_def return_io_def Let_def
      split: sum.splits)

lemma listPermissions_never_fails:
  "never_fails h \<Longrightarrow> \<exists>report. fst (listPermissions h r log) = Inr report"
proof -
  assume "never_fails h"
  then have "fst (exec_all h (listPermissions_queries r) log) = Inr ()"
    by (simp add: exec_all_never_fails)
  with listPermissions_exec [of h r log] show ?thesis
    by (cases "fst (listPermissions h r log)") simp_all
qed

text \<open>
  Claim C10. Every report returned by listPermissions has \<open>functionPermissions = []\<close>,
  \<open>defaultPrivileges = []\<close> and \<open>description = null\<close>, and a report is returned whenever
  no query fails; yet the help text of the list-permissions command lists function
  permissions among what is displayed.
\<close>

theorem listPermissions_function_permissions_empty:
  "(outcome (listPermissions h r) log = Inr report
      \<longrightarrow> functionPermissions report = [] \<and> defaultPrivileges report = []
          \<and> description report = None)
   \<and> (never_fails h \<longrightarrow> (\<exists>report. outcome (listPermissions h r) log = Inr report))
   \<and> ''  - Function permissions (for system roles)'' \<in> set list_permissions_help"
proof -
  have "''  - Function permissions (for system roles)'' \<in> set list_permissions_help"
    by (simp add: list_permissions_help_def)
  then show ?thesis
    using listPermissions_fixed_fields [of h r log report] listPermissions_never_fails [of h r log]
    by (simp add: outcome_def)
qed

theorem listPermissions_function_permissions_empty_witness:
  "never_fails (always_rows [[(''privilege_type'', JStr ''EXECUTE'')]])
   \<and> outcome (listPermissions (always_rows [[(''privilege_type'', JStr ''EXECUTE'')]])
                ''app_read_only'') [] =
       Inr \<lparr>roleDetails = [(''privilege_type'', JStr ''EXECUTE'')],
            tablePermissions = [[(''privilege_type'', JStr ''EXECUTE'')]],
            schemaPermissions = [[(''privilege_type'', JStr ''EXECUTE'')]],
            databasePermissions = [[(''privilege_type'', JStr ''EXECUTE'')]],
            columnPermissions = [[(''privilege_type'', JStr ''EXECUTE'')]],
            functionPermissions = [],
            defaultPrivileges = [],
            memberOf = [[(''privilege_type'', JStr ''EXECUTE'')]],
            description = None\<rparr>"
proof -
  let ?h = "always_rows [[(''privilege_type'', JStr ''EXECUTE'')]]"
  have nf: "never_fails ?h"
    by (simp add: never_fails_def always_rows_def)
  with listPermissions_function_permissions_empty [of ?h "''app_read_only''" "[]"]
  obtain report where rep: "outcome (listPermissions ?h ''app_read_only'') [] = Inr report"
    by blast
  with listPermissions_function_permissions_empty [of ?h "''app_read_only''" "[]" report]
  have fixed: "functionPermissions report = []" "defaultPrivileges report = []"
    "description report = None"
    by blast+
  have "outcome (listPermissions ?h ''app_read_only'') [] =
       Inr \<lparr>roleDetails = [(''privilege_type'', JStr ''EXECUTE'')],
            tablePermissions = [[(''privilege_type'', JStr ''EXECUTE'')]],
            schemaPermissions = [[(''privilege_type'', JStr ''EXECUTE'')]],
            databasePermissions = [[(''privilege_type'', JStr ''EXECUTE'')]],
            columnPermissions = [[(''privilege_type'', JStr ''EXECUTE'')]],
            functionPermissions = functionPermissions report,
            defaultPrivileges = defaultPrivileges report,
            memberOf = [[(''privilege_type'', JStr ''EXECUTE'')]],
            description = description report\<rparr>"
    unfolding fixed
    by (simp add: listPermissions_def outcome_def bind_io_def query_def return_io_def
        always_rows_def)
  with nf fixed show ?thesis by simp
qed


section \<open>Generated passwords\<close>

lemma charAt_random:
  "s \<noteq> [] \<Longrightarrow> \<exists>c. charAt s (random_index src k (length s)) = [c] \<and> c \<in> set s"
  by (simp add: charAt_def random_index_def)

lemma fill_loop_extends:
  "chars \<noteq> [] \<Longrightarrow>
     \<exists>ys. fst (fill_loop src chars n k password) = password @ ys \<and> length ys = n"
proof (induction n arbitrary: k password)
  case 0
  then show ?case by simp
next
  case (Suc n)
  from charAt_random [OF Suc.prems, of src k] obtain c
    where c: "charAt chars (random_index src k (length chars)) = [c]" by blast
  from Suc.IH [OF Suc.prems, of "Suc k" "password @ [c]"] obtain ys
    where "fst (fill_loop src chars n (Suc k) (password @ [c])) = (password @ [c]) @ ys"
      "length ys = n" by blast
  with c show ?case by (simp add: Let_def)
qed

lemma shuffle_loop_mset:
  "i < length arr \<Longrightarrow> mset (shuffle_loop src i k arr) = mset arr"
proof (induction i arbitrary: k arr)
  case 0
  then show ?case by simp
next
  case (Suc i')
  let ?j = "random_index src k (Suc i' + 1)"
  have j: "?j < length arr"
    using Suc.prems by (simp add: random_index_def) (meson less_Suc_eq_le mod_less_divisor order_le_less_trans zero_less_Suc less_imp_le_nat)
  let ?arr' = "arr[Suc i' := arr ! ?j, ?j := arr ! Suc i']"
  have "mset ?arr' = mset arr"
    using mset_swap [OF j Suc.prems] by simp
  moreover have "i' < length ?arr'" using Suc.prems by simp
  ultimately show ?case using Suc.IH [of ?arr' "Suc k"] by (simp add: Let_def)
qed

lemma shuffle_from_last_mset:
  "mset (shuffle_loop src (length arr - 1) k arr) = mset arr"
  by (cases "arr = []") (simp_all add: shuffle_loop_mset)

lemma fill_loop_unfold:
  "fill_loop src chars n k password =
     (if n = 0 then (password, k)
      else fill_loop src chars (n - 1) (k + 1)
             (password @ charAt chars (random_index src k (length chars))))"
  by (cases n) (simp_all add: Let_def)

lemma shuffle_loop_unfold:
  "shuffle_loop src i k arr =
     (if i = 0 then arr
      else shuffle_loop src (i - 1) (k + 1)
             (arr[i := arr ! random_index src k (i + 1), random_index src k (i + 1) := arr ! i]))"
  by (cases i) (simp_all add: Let_def)

lemma demo_fill: "fill_loop demo_rng (lowercase @ uppercase @ numbers @ special) 13 3 ''D0}''
      = (''D0}yFMT07%+|?gnu'', 16)"
  by (simp add: fill_loop_unfold [of _ _ "numeral n" for n] fill_loop_unfold [of _ _ 1]
      demo_rng_def random_index_def charAt_def
      lowercase_def uppercase_def numbers_def special_def)

lemma demo_shuffle: "shuffle_loop demo_rng 15 16 ''D0}yFMT07%+|?gnu'' = ''D0F?7M%gn+0|Tu}y''"
  by (simp add: shuffle_loop_unfold [of _ "numeral n" for n] Let_def
      numeral_2_eq_2 [symmetric] demo_rng_def random_index_def)


lemma generateSecurePassword_steps:
  assumes "charAt uppercase (random_index src 0 (length uppercase)) = u"
    and "charAt numbers (random_index src (Suc 0) (length numbers)) = n"
    and "charAt special (random_index src (Suc (Suc 0)) (length special)) = s"
    and "fill_loop src (lowercase @ uppercase @ numbers @ special)
           (nat (L - int (length (u @ n @ s)))) (Suc (Suc (Suc 0))) (u @ n @ s) = (pw, k)"
  shows "generateSecurePassword src L True True True = shuffle_loop src (length pw - 1) k pw"
  using assms
  by (simp add: generateSecurePassword_def Let_def add.assoc
      del: fill_loop.simps shuffle_loop.simps)

lemma demo_password: "generateSecurePassword demo_rng 16 True True True = ''D0F?7M%gn+0|Tu}y''"
proof -
  have c1: "charAt uppercase (random_index demo_rng 0 (length uppercase)) = ''D''"
    by (simp add: charAt_def random_index_def demo_rng_def uppercase_def)
  have c2: "charAt numbers (random_index demo_rng (Suc 0) (length numbers)) = ''0''"
    by (simp add: charAt_def random_index_def demo_rng_def numbers_def)
  have c3: "charAt special (random_index demo_rng (Suc (Suc 0)) (length special)) = ''}''"
    by (simp add: charAt_def random_index_def demo_rng_def special_def)
  have n: "''D'' @ ''0'' @ ''}'' = ''D0}''" "Suc (Suc (Suc 0)) = 3"
    "nat (16 - int (length ''D0}'')) = 13"
    by simp_all
  have f: "fill_loop demo_rng (lowercase @ uppercase @ numbers @ special)
           (nat (16 - int (length (''D'' @ ''0'' @ ''}'')))) (Suc (Suc (Suc 0))) (''D'' @ ''0'' @ ''}'')
        = (''D0}yFMT07%+|?gnu'', 16)"
    unfolding n by (rule demo_fill)
  have l: "length ''D0}yFMT07%+|?gnu'' - 1 = 15" by simp
  show ?thesis
    unfolding generateSecurePassword_steps [OF c1 c2 c3 f] l by (rule demo_shuffle)
qed

text \<open>
  Claim C7. For every requested length \<open>L \<ge> 3\<close> and every random source, with uppercase,
  numbers and special characters enabled, generateSecurePassword returns a string of
  exactly \<open>L\<close> characters that contains at least one uppercase letter, at least one digit
  and at least one special character.
\<close>

theorem generated_password_length_and_classes:
  assumes "3 \<le> L"
  shows "int (length (generateSecurePassword src L True True True)) = L
       \<and> (\<exists>c \<in> set (generateSecurePassword src L True True True). c \<in> set uppercase)
       \<and> (\<exists>c \<in> set (generateSecurePassword src L True True True). c \<in> set numbers)
       \<and> (\<exists>c \<in> set (generateSecurePassword src L True True True). c \<in> set special)"
proof -
  have ne: "uppercase \<noteq> []" "numbers \<noteq> []" "special \<noteq> []"
    by (simp_all add: uppercase_def numbers_def special_def)
  obtain u where u: "charAt uppercase (random_index src 0 (length uppercase)) = [u]"
    "u \<in> set uppercase"
    using charAt_random [OF ne(1), of src 0] by blast
  obtain n where n: "charAt numbers (random_index src (Suc 0) (length numbers)) = [n]"
    "n \<in> set numbers"
    using charAt_random [OF ne(2), of src "Suc 0"] by blast
  obtain s where s: "charAt special (random_index src (Suc (Suc 0)) (length special)) = [s]"
    "s \<in> set special"
    using charAt_random [OF ne(3), of src "Suc (Suc 0)"] by blast
  let ?chars = "lowercase @ uppercase @ numbers @ special"
  have "?chars \<noteq> []" by (simp add: lowercase_def)
  from fill_loop_extends [OF this, of src "nat (L - 3)" "Suc (Suc (Suc 0))" "[u, n, s]"]
  obtain ys where ys: "fst (fill_loop src ?chars (nat (L - 3)) (Suc (Suc (Suc 0))) [u, n, s]) = [u, n, s] @ ys"
    "length ys = nat (L - 3)" by blast
  obtain k' where filled: "fill_loop src ?chars (nat (L - 3)) (Suc (Suc (Suc 0))) [u, n, s] = ([u, n, s] @ ys, k')"
    using ys(1) by (cases "fill_loop src ?chars (nat (L - 3)) (Suc (Suc (Suc 0))) [u, n, s]") simp
  have gen: "generateSecurePassword src L True True True
          = shuffle_loop src (length ([u, n, s] @ ys) - 1) k' ([u, n, s] @ ys)"
    using u(1) n(1) s(1) filled
    by (simp add: generateSecurePassword_def Let_def del: fill_loop.simps shuffle_loop.simps)
  have m: "mset (generateSecurePassword src L True True True) = mset ([u, n, s] @ ys)"
    unfolding gen by (rule shuffle_from_last_mset)
  from m have len: "length (generateSecurePassword src L True True True) = length ([u, n, s] @ ys)"
    by (rule mset_eq_length)
  from m have st: "set (generateSecurePassword src L True True True) = set ([u, n, s] @ ys)"
    by (rule mset_eq_setD)
  from len ys(2) assms have "int (length (generateSecurePassword src L True True True)) = L"
    by simp
  moreover from st u(2) n(2) s(2)
  have "(\<exists>c \<in> set (generateSecurePassword src L True True True). c \<in> set uppercase)
       \<and> (\<exists>c \<in> set (generateSecurePassword src L True True True). c \<in> set numbers)
       \<and> (\<exists>c \<in> set (generateSecurePassword src L True True True). c \<in> set special)"
    by auto
  ultimately show ?thesis by blast
qed


theorem generated_password_length_and_classes_witness:
  "(3::int) \<le> 16
   \<and> generateSecurePassword demo_rng 16 True True True = ''D0F?7M%gn+0|Tu}y''
   \<and> int (length (generateSecurePassword demo_rng 16 True True True)) = 16
   \<and> (\<exists>c \<in> set (generateSecurePassword demo_rng 16 True True True). c \<in> set uppercase)
   \<and> (\<exists>c \<in> set (generateSecurePassword demo_rng 16 True True True). c \<in> set numbers)
   \<and> (\<exists>c \<in> set (generateSecurePassword demo_rng 16 True True True). c \<in> set special)"
proof -
  have v: "generateSecurePassword demo_rng 16 True True True = ''D0F?7M%gn+0|Tu}y''"
    by (rule demo_password)
  have h: "(3::int) \<le> 16" by simp
  note t = generated_password_length_and_classes [OF h, of demo_rng]
  show ?thesis
    by (intro conjI h v t [THEN conjunct1] t [THEN conjunct2, THEN conjunct1]
        t [THEN conjunct2, THEN conjunct2, THEN conjunct1]
        t [THEN conjunct2, THEN conjunct2, THEN conjunct2])
qed

section \<open>Listing users\<close>

lemma parse_false:
  "Option.bind (lex (Plain []) (listUsers_query False)) parse_select = Some (listUsers_select False)"
  by code_simp

lemma parse_true:
  "Option.bind (lex (Plain []) (listUsers_query True)) parse_select = Some (listUsers_select True)"
  by code_simp

lemma listUsers_query_parses:
  "Option.bind (lex (Plain []) (listUsers_query b)) parse_select = Some (listUsers_select b)"
  by (cases b) (simp_all only: parse_false parse_true)

declare like.simps [simp del]

lemma like_literal:
  "p \<noteq> CHR ''%'' \<Longrightarrow> p \<noteq> CHR ''_'' \<Longrightarrow> p \<noteq> CHR 0x5C \<Longrightarrow>
     like s (p # ps) = (case s of [] \<Rightarrow> False | c # s' \<Rightarrow> c = p \<and> like s' ps)"
  by (simp add: like.simps(3))

lemma like_escaped:
  "like s (CHR 0x5C # q # qs) = (case s of [] \<Rightarrow> False | c # s' \<Rightarrow> c = q \<and> like s' qs)"
  by (simp add: like.simps(3))

lemma like_percent: "like s ''%''"
proof (induction s)
  case Nil
  then show ?case by (simp add: like.simps(3) [of "[]"] like.simps(1))
next
  case (Cons c s)
  then show ?case by (simp add: like.simps(3) [of "c # s"])
qed

lemma like_pg:
  "like s [CHR ''p'', CHR ''g'', CHR 0x5C, CHR ''_'', CHR ''%''] = startsWith s ''pg_''"
  by (auto simp: like_literal like_escaped like_percent startsWith_def split: list.splits)

lemma like_rds:
  "like s [CHR ''r'', CHR ''d'', CHR ''s'', CHR 0x5C, CHR ''_'', CHR ''%''] = startsWith s ''rds_''"
  by (auto simp: like_literal like_escaped like_percent startsWith_def split: list.splits)

lemma run_select_regular:
  "run_select (listUsers_select False) pg_roles =
     Inr (map user_row (sort_key rolname
            (filter (\<lambda>r. rolcanlogin r \<and> \<not> startsWith (rolname r) ''pg_''
                          \<and> \<not> startsWith (rolname r) ''rds_'') pg_roles)))"
  by (simp add: run_select_def listUsers_select_def bool_column_def text_column_def
      column_value_def like_pg like_rds user_row_def cong: filter_cong)

lemma run_select_all:
  "run_select (listUsers_select True) pg_roles =
     Inr (map user_row (sort_key rolname (filter rolcanlogin pg_roles)))"
  by (simp add: run_select_def listUsers_select_def bool_column_def text_column_def
      column_value_def user_row_def cong: filter_cong)

lemma pg_roles_handle_listUsers:
  "pg_roles_handle pg_roles log (listUsers_query b, []) = run_select (listUsers_select b) pg_roles"
proof -
  from listUsers_query_parses [of b] obtain ts
    where "lex (Plain []) (listUsers_query b) = Some ts" "parse_select ts = Some (listUsers_select b)"
    by (cases "lex (Plain []) (listUsers_query b)") simp_all
  then show ?thesis by (simp add: pg_roles_handle_def)
qed

lemma listUsers_sends_one_statement:
  "issued_by (listUsers h b) log = [(listUsers_query b, [])]
   \<and> outcome (listUsers h b) log = h log (listUsers_query b, [])"
  by (cases "h log (listUsers_query b, [])")
     (simp_all add: listUsers_def issued_by_def outcome_def bind_io_def query_def return_io_def)

text \<open>
  Claim C8. listUsers sends exactly one statement and returns the answer of the database
  unchanged. Read as SQL, the statement it builds selects from \<^verbatim>\<open>pg_roles\<close> the rows with
  \<open>rolcanlogin = true\<close>, for listUsers(false) also with a name that matches neither
  \<^verbatim>\<open>'pg\_%'\<close> nor \<^verbatim>\<open>'rds\_%'\<close>, ordered by \<open>rolname\<close>. Hence, for every content of
  \<^verbatim>\<open>pg_roles\<close>, listUsers(false) returns exactly the roles with \<open>can_login = true\<close> whose
  names start neither with \<open>pg_\<close> nor with \<open>rds_\<close>, ordered by name; listUsers(true) returns
  every role with \<open>can_login = true\<close>, ordered by name, so reserved-prefix roles that can
  log in are included.
\<close>

theorem listUsers_filters_and_orders:
  "issued_by (listUsers h b) log = [(listUsers_query b, [])]
   \<and> outcome (listUsers h b) log = h log (listUsers_query b, [])
   \<and> Option.bind (lex (Plain []) (listUsers_query b)) parse_select = Some (listUsers_select b)
   \<and> (\<exists>rs. outcome (listUsers (pg_roles_handle pg_roles) False) log = Inr (map user_row rs)
         \<and> sorted (map rolname rs)
         \<and> mset rs = mset (filter (\<lambda>r. rolcanlogin r \<and> \<not> startsWith (rolname r) ''pg_''
                                        \<and> \<not> startsWith (rolname r) ''rds_'') pg_roles))
   \<and> (\<exists>rs. outcome (listUsers (pg_roles_handle pg_roles) True) log = Inr (map user_row rs)
         \<and> sorted (map rolname rs)
         \<and> mset rs = mset (filter rolcanlogin pg_roles))"
proof (intro conjI)
  show "issued_by (listUsers h b) log = [(listUsers_query b, [])]"
    by (rule listUsers_sends_one_statement [THEN conjunct1])
  show "outcome (listUsers h b) log = h log (listUsers_query b, [])"
    by (rule listUsers_sends_one_statement [THEN conjunct2])
  show "Option.bind (lex (Plain []) (listUsers_query b)) parse_select = Some (listUsers_select b)"
    by (rule listUsers_query_parses)
next
  let ?f = "filter (\<lambda>r. rolcanlogin r \<and> \<not> startsWith (rolname r) ''pg_''
                                        \<and> \<not> startsWith (rolname r) ''rds_'') pg_roles"
  have "outcome (listUsers (pg_roles_handle pg_roles) False) log
          = Inr (map user_row (sort_key rolname ?f))"
    by (simp only: listUsers_sends_one_statement pg_roles_handle_listUsers run_select_regular)
  moreover have "sorted (map rolname (sort_key rolname ?f))" by simp
  moreover have "mset (sort_key rolname ?f) = mset ?f" by simp
  ultimately show "\<exists>rs. outcome (listUsers (pg_roles_handle pg_roles) False) log = Inr (map user_row rs)
         \<and> sorted (map rolname rs) \<and> mset rs = mset ?f"
    by (intro exI [of _ "sort_key rolname ?f"] conjI)
next
  have "outcome (listUsers (pg_roles_handle pg_roles) True) log
          = Inr (map user_row (sort_key rolname (filter rolcanlogin pg_roles)))"
    by (simp only: listUsers_sends_one_statement pg_roles_handle_listUsers run_select_all)
  moreover have "sorted (map rolname (sort_key rolname (filter rolcanlogin pg_roles)))" by simp
  moreover have "mset (sort_key rolname (filter rolcanlogin pg_roles)) = mset (filter rolcanlogin pg_roles)"
    by simp
  ultimately show "\<exists>rs. outcome (listUsers (pg_roles_handle pg_roles) True) log = Inr (map user_row rs)
         \<and> sorted (map rolname rs) \<and> mset rs = mset (filter rolcanlogin pg_roles)"
    by (intro exI [of _ "sort_key rolname (filter rolcanlogin pg_roles)"] conjI)
qed

theorem listUsers_filters_and_orders_witness:
  "outcome (listUsers (pg_roles_handle demo_roles) False) [] =
      Inr [[(''username'', JStr ''alice''), (''is_superuser'', JBool False),
            (''can_create_role'', JBool True), (''can_login'', JBool True)],
           [(''username'', JStr ''bob''), (''is_superuser'', JBool False),
            (''can_create_role'', JBool False), (''can_login'', JBool True)]]
   \<and> map (\<lambda>row. map_of row ''username'')
         (projr (outcome (listUsers (pg_roles_handle demo_roles) True) [])) =
      [Some (JStr ''alice''), Some (JStr ''bob''), Some (JStr ''pg_monitor''),
       Some (JStr ''rds_admin'')]
   \<and> (\<exists>rs. outcome (listUsers (pg_roles_handle demo_roles) True) [] = Inr (map user_row rs)
         \<and> sorted (map rolname rs)
         \<and> mset rs = mset (filter rolcanlogin demo_roles))"
proof -
  have v1: "outcome (listUsers (pg_roles_handle demo_roles) False) [] =
      Inr [[(''username'', JStr ''alice''), (''is_superuser'', JBool False),
            (''can_create_role'', JBool True), (''can_login'', JBool True)],
           [(''username'', JStr ''bob''), (''is_superuser'', JBool False),
            (''can_create_role'', JBool False), (''can_login'', JBool True)]]"
    by code_simp
  have v2: "map (\<lambda>row. map_of row ''username'')
         (projr (outcome (listUsers (pg_roles_handle demo_roles) True) [])) =
      [Some (JStr ''alice''), Some (JStr ''bob''), Some (JStr ''pg_monitor''),
       Some (JStr ''rds_admin'')]"
    by code_simp
  note t = listUsers_filters_and_orders [of always_ok True "[]" demo_roles]
  show ?thesis
    by (intro conjI v1 v2 t [THEN conjunct2, THEN conjunct2, THEN conjunct2, THEN conjunct2])
qed

section \<open>Shaping the permission report\<close>

lemma new_Set_aux:
  "distinct s \<Longrightarrow>
     distinct (fold (\<lambda>x s. if x \<in> set s then s else s @ [x]) xs s)
     \<and> set (fold (\<lambda>x s. if x \<in> set s then s else s @ [x]) xs s) = set s \<union> set xs"
  by (induction xs arbitrary: s) auto

lemma length_new_Set: "length (new_Set xs) = card (set xs)"
  using new_Set_aux [of "[]" xs] by (simp add: new_Set_def distinct_card [symmetric])

lemma map_of_modify_key:
  "map_of (modify_key obj k f) k' = (if k' = k then map_option f (map_of obj k) else map_of obj k')"
  by (induction obj) (auto simp: modify_key_def)

lemma keys_modify_key: "map fst (modify_key obj k f) = map fst obj"
  by (induction obj) (auto simp: modify_key_def)

lemma map_of_ensure_key:
  "map_of (ensure_key obj k d) k' =
     (if k' = k \<and> map_of obj k = None then Some d else map_of obj k')"
  by (auto simp: ensure_key_def map_add_def split: option.splits)

lemma keys_ensure_key:
  "set (map fst (ensure_key obj k d)) = insert k (set (map fst obj))"
proof (cases "map_of obj k")
  case None
  then show ?thesis by (simp add: ensure_key_def)
next
  case (Some v)
  then have "k \<in> fst ` set obj" by (metis map_of_eq_None_iff option.distinct(1))
  with Some show ?thesis by (auto simp: ensure_key_def)
qed

lemma distinct_ensure_key:
  "distinct (map fst obj) \<Longrightarrow> distinct (map fst (ensure_key obj k d))"
  by (auto simp: ensure_key_def map_of_eq_None_iff)

lemma map_of_step:
  "map_of (modify_key (ensure_key obj k d) k f) k' =
     (if k' = k then Some (f (case map_of obj k of None \<Rightarrow> d | Some v \<Rightarrow> v))
      else map_of obj k')"
  by (auto simp: map_of_modify_key map_of_ensure_key split: option.splits)

lemma keys_step:
  "set (map fst (modify_key (ensure_key obj k d) k f)) = insert k (set (map fst obj))"
  by (simp only: keys_modify_key keys_ensure_key)

lemma distinct_step:
  "distinct (map fst obj) \<Longrightarrow> distinct (map fst (modify_key (ensure_key obj k d) k f))"
  by (simp add: keys_modify_key distinct_ensure_key)

lemma map_of_fold_step:
  "map_of (fold (\<lambda>g obj. modify_key (ensure_key obj (K g) d) (K g) (F g)) gs obj) k =
     (if \<exists>g\<in>set gs. K g = k
      then Some (fold F (filter (\<lambda>g. K g = k) gs) (case map_of obj k of None \<Rightarrow> d | Some v \<Rightarrow> v))
      else map_of obj k)"
proof (induction gs arbitrary: obj)
  case Nil
  then show ?case by simp
next
  case (Cons g gs)
  show ?case
    by (simp only: fold_simps Cons.IH) (auto simp: map_of_step)
qed

lemma keys_fold_step:
  "set (map fst (fold (\<lambda>g obj. modify_key (ensure_key obj (K g) d) (K g) (F g)) gs obj))
     = set (map fst obj) \<union> K ` set gs"
  by (induction gs arbitrary: obj) (auto simp: keys_step simp del: set_map)

lemma distinct_fold_step:
  "distinct (map fst obj) \<Longrightarrow>
     distinct (map fst (fold (\<lambda>g obj. modify_key (ensure_key obj (K g) d) (K g) (F g)) gs obj))"
  by (induction gs arbitrary: obj) (simp_all add: distinct_step)

lemma fold_push: "fold (\<lambda>g vs. vs @ [V g]) gs vs = vs @ map V gs"
  by (induction gs arbitrary: vs) simp_all

lemma sort_distinct_keys:
  "distinct xs \<Longrightarrow> sort xs = sorted_list_of_set (set xs)"
  by (simp add: sorted_list_of_set_sort_remdups distinct_remdups_id)

lemma own_value_fold_push:
  assumes "k \<in> K ` set gs"
  shows "own_value (fold (\<lambda>g obj. modify_key (ensure_key obj (K g) []) (K g) (\<lambda>vs. vs @ [V g])) gs []) k
           = map V (filter (\<lambda>g. K g = k) gs)"
proof -
  from assms have ex: "\<exists>g\<in>set gs. K g = k" by auto
  have "map_of (fold (\<lambda>g obj. modify_key (ensure_key obj (K g) []) (K g) (\<lambda>vs. vs @ [V g])) gs []) k
          = Some (fold (\<lambda>g vs. vs @ [V g]) (filter (\<lambda>g. K g = k) gs) [])"
    using ex by (simp add: map_of_fold_step [where F = "\<lambda>g vs. vs @ [V g]"])
  then show ?thesis by (simp add: own_value_def fold_push)
qed

lemma sorted_keys_fold:
  "sort (map fst (fold (\<lambda>g obj. modify_key (ensure_key obj (K g) d) (K g) (F g)) gs []))
     = sorted_list_of_set (K ` set gs)"
proof -
  have "distinct (map fst (fold (\<lambda>g obj. modify_key (ensure_key obj (K g) d) (K g) (F g)) gs []))"
    by (rule distinct_fold_step) simp
  from sort_distinct_keys [OF this] show ?thesis
    by (simp only: keys_fold_step) simp
qed

lemma displayTablePermissions_alt:
  "displayTablePermissions grants =
     (if grants = [] then []
      else map (\<lambda>tableKey.
                 (tableKey,
                  (if Some (JStr ''SELECT'') \<in> set (own_value (fold (\<lambda>perm obj. modify_key (ensure_key obj (table_key perm) []) (table_key perm) (\<lambda>perms. perms @ [privilege perm])) grants []) tableKey) then [''SELECT''] else [])
                  @ (if Some (JStr ''INSERT'') \<in> set (own_value (fold (\<lambda>perm obj. modify_key (ensure_key obj (table_key perm) []) (table_key perm) (\<lambda>perms. perms @ [privilege perm])) grants []) tableKey) then [''INSERT''] else [])
                  @ (if Some (JStr ''UPDATE'') \<in> set (own_value (fold (\<lambda>perm obj. modify_key (ensure_key obj (table_key perm) []) (table_key perm) (\<lambda>perms. perms @ [privilege perm])) grants []) tableKey) then [''UPDATE''] else [])
                  @ (if Some (JStr ''DELETE'') \<in> set (own_value (fold (\<lambda>perm obj. modify_key (ensure_key obj (table_key perm) []) (table_key perm) (\<lambda>perms. perms @ [privilege perm])) grants []) tableKey) then [''DELETE''] else []),
                  own_value (fold (\<lambda>perm obj. modify_key (ensure_key obj (table_key perm) []) (table_key perm) (\<lambda>perms. perms @ [privilege perm])) grants []) tableKey))
              (sort (map fst (fold (\<lambda>perm obj. modify_key (ensure_key obj (table_key perm) []) (table_key perm) (\<lambda>perms. perms @ [privilege perm])) grants []))))"
  by (simp add: displayTablePermissions_def table_key_def privilege_def Let_def)

lemma icons_filter:
  "(if Some (JStr ''SELECT'') \<in> set perms then [''SELECT''] else [])
   @ (if Some (JStr ''INSERT'') \<in> set perms then [''INSERT''] else [])
   @ (if Some (JStr ''UPDATE'') \<in> set perms then [''UPDATE''] else [])
   @ (if Some (JStr ''DELETE'') \<in> set perms then [''DELETE''] else [])
   = filter (\<lambda>kind. Some (JStr kind) \<in> set perms) [''SELECT'', ''INSERT'', ''UPDATE'', ''DELETE'']"
  by simp

lemma displayTablePermissions_groups:
  "displayTablePermissions grants = table_grants_by_key grants"
proof (cases "grants = []")
  case True
  then show ?thesis by (simp add: displayTablePermissions_def table_grants_by_key_def)
next
  case False
  let ?G = "fold (\<lambda>perm obj. modify_key (ensure_key obj (table_key perm) []) (table_key perm)
                                  (\<lambda>perms. perms @ [privilege perm])) grants []"
  have keys: "sort (map fst ?G) = sorted_list_of_set (table_key ` set grants)"
    by (rule sorted_keys_fold)
  have vals: "own_value ?G k = map privilege (filter (\<lambda>g. table_key g = k) grants)"
    if "k \<in> table_key ` set grants" for k
    using that by (rule own_value_fold_push)
  show ?thesis
    unfolding displayTablePermissions_alt table_grants_by_key_def Let_def keys icons_filter
    using False
  proof (simp only: if_False, intro map_cong [OF refl])
    fix k assume "k \<in> set (sorted_list_of_set (table_key ` set grants))"
    then have "k \<in> table_key ` set grants" by simp
    from vals [OF this]
    show "(k, filter (\<lambda>kind. Some (JStr kind) \<in> set (own_value ?G k))
                 [''SELECT'', ''INSERT'', ''UPDATE'', ''DELETE''], own_value ?G k)
        = (k, filter (\<lambda>kind. Some (JStr kind)
                        \<in> set (map privilege (filter (\<lambda>g. table_key g = k) grants)))
                 [''SELECT'', ''INSERT'', ''UPDATE'', ''DELETE''],
              map privilege (filter (\<lambda>g. table_key g = k) grants))"
      by (simp only:)
  qed
qed

lemma forEach_columns_ok:
  "\<forall>g\<in>set grants. column_name g \<notin> set object_prototype_names \<Longrightarrow>
     displayColumnPermissions_forEach grants obj =
       Inr (fold (\<lambda>perm obj.
                    modify_key (ensure_key obj (table_key perm) []) (table_key perm)
                      (\<lambda>columns. modify_key (ensure_key columns (column_name perm) [])
                                     (column_name perm) (\<lambda>perms. perms @ [privilege perm])))
                 grants obj)"
  by (induction grants arbitrary: obj)
     (simp_all add: table_key_def column_name_def privilege_def Let_def)

lemma forEach_columns_fails:
  "\<exists>g\<in>set grants. column_name g \<in> set object_prototype_names \<Longrightarrow>
     displayColumnPermissions_forEach grants obj = Inl TypeError"
  by (induction grants arbitrary: obj) (auto simp: column_name_def Let_def)

lemma own_value_fold_step:
  assumes "k \<in> K ` set gs"
  shows "own_value (fold (\<lambda>g obj. modify_key (ensure_key obj (K g) []) (K g) (F g)) gs []) k
           = fold F (filter (\<lambda>g. K g = k) gs) []"
proof -
  from assms have ex: "\<exists>g\<in>set gs. K g = k" by auto
  then show ?thesis by (simp add: own_value_def map_of_fold_step)
qed

lemma displayColumnPermissions_groups:
  assumes ok: "\<forall>g\<in>set grants. column_name g \<notin> set object_prototype_names"
  shows "displayColumnPermissions grants = Inr (column_grants_by_key grants)"
proof (cases "grants = []")
  case True
  then show ?thesis by (simp add: displayColumnPermissions_def column_grants_by_key_def)
next
  case False
  let ?F = "\<lambda>perm columns. modify_key (ensure_key columns (column_name perm) [])
                                     (column_name perm) (\<lambda>perms. perms @ [privilege perm])"
  let ?G = "fold (\<lambda>perm obj. modify_key (ensure_key obj (table_key perm) []) (table_key perm)
                                  (?F perm)) grants []"
  have keys: "sort (map fst ?G) = sorted_list_of_set (table_key ` set grants)"
    by (rule sorted_keys_fold)
  have inner: "own_value ?G k = fold ?F (filter (\<lambda>g. table_key g = k) grants) []"
    if "k \<in> table_key ` set grants" for k
    using that by (rule own_value_fold_step)
  have row: "(k, map (\<lambda>columnName. (columnName, own_value (own_value ?G k) columnName))
                   (sort (map fst (own_value ?G k))))
           = (k, map (\<lambda>c. (c, map privilege
                               (filter (\<lambda>g. table_key g = k \<and> column_name g = c) grants)))
                   (sorted_list_of_set
                      (column_name ` set (filter (\<lambda>g. table_key g = k) grants))))"
    if k: "k \<in> table_key ` set grants" for k
  proof -
    let ?gs = "filter (\<lambda>g. table_key g = k) grants"
    have ckeys: "sort (map fst (fold ?F ?gs [])) = sorted_list_of_set (column_name ` set ?gs)"
      by (rule sorted_keys_fold)
    have cvals: "own_value (fold ?F ?gs []) c
                   = map privilege (filter (\<lambda>g. table_key g = k \<and> column_name g = c) grants)"
      if "c \<in> column_name ` set ?gs" for c
    proof -
      have "own_value (fold ?F ?gs []) c = map privilege (filter (\<lambda>g. column_name g = c) ?gs)"
        using that by (rule own_value_fold_push)
      also have "filter (\<lambda>g. column_name g = c) ?gs
                   = filter (\<lambda>g. table_key g = k \<and> column_name g = c) grants"
        by (simp add: conj_commute)
      finally show ?thesis .
    qed
    have "map (\<lambda>columnName. (columnName, own_value (fold ?F ?gs []) columnName))
              (sorted_list_of_set (column_name ` set ?gs))
        = map (\<lambda>c. (c, map privilege
                          (filter (\<lambda>g. table_key g = k \<and> column_name g = c) grants)))
              (sorted_list_of_set (column_name ` set ?gs))"
      by (rule map_cong [OF refl]) (simp add: cvals)
    then show ?thesis
      unfolding inner [OF k] ckeys by (simp only:)
  qed
  have "displayColumnPermissions grants =
          Inr (map (\<lambda>tableKey.
                      (tableKey,
                       map (\<lambda>columnName. (columnName, own_value (own_value ?G tableKey) columnName))
                           (sort (map fst (own_value ?G tableKey)))))
                   (sort (map fst ?G)))"
    using False by (simp add: displayColumnPermissions_def forEach_columns_ok [OF ok])
  also have "\<dots> = Inr (column_grants_by_key grants)"
    unfolding keys column_grants_by_key_def
    by (simp only: sum.inject, intro map_cong [OF refl]) (simp add: row)
  finally show ?thesis .
qed

lemma demo_table_rows:
  "table_grants_by_key (tablePermissions demo_report) =
     [(''app.users'', [''SELECT''], [Some (JStr ''SELECT'')]),
      (''public.orders'', [''SELECT'', ''INSERT''],
       [Some (JStr ''INSERT''), Some (JStr ''SELECT''), Some (JStr ''SELECT'')])]"
  by code_simp

lemma demo_column_rows:
  "column_grants_by_key (columnPermissions demo_report) =
     [(''public.orders'',
       [(''id'', [Some (JStr ''SELECT'')]),
        (''total'', [Some (JStr ''UPDATE''), Some (JStr ''SELECT'')])])]"
  by code_simp

lemma demo_columns_ok:
  "\<forall>g\<in>set (columnPermissions demo_report). column_name g \<notin> set object_prototype_names"
  by code_simp

lemma demo_summary:
  "displayQuickSummary demo_report =
     \<lparr>hasReadPermissions = True, hasWritePermissions = True, hasAdminPermissions = True,
      totalTables = 2, totalColumns = 2\<rparr>"
  by code_simp

text \<open>
  Claim C6 as stated fails in its last part: privilege kinds are not deduplicated per
  object. Two grant rows for SELECT on \<open>public.orders\<close> (the same privilege granted by two
  grantors) give one table row that lists SELECT twice; only the icon appears once.
\<close>

theorem privilege_kinds_not_deduplicated_counterexample:
  "displayTablePermissions
     [grant_row ''public'' ''orders'' ''SELECT'', grant_row ''public'' ''orders'' ''SELECT'']
   = [(''public.orders'', [''SELECT''], [Some (JStr ''SELECT''), Some (JStr ''SELECT'')])]"
  by code_simp

text \<open>
  Claim C6, amended. For every permission report, displayQuickSummary computes hasRead as
  ``some table grant has privilege SELECT'', hasWrite as ``some table grant has privilege
  INSERT, UPDATE or DELETE'', hasAdmin as ``superuser or create-db or create-role is truthy
  in the role attributes'', and the counts of distinct schema.table keys among table grants
  and of distinct schema.table.column keys among column grants. displayTablePermissions
  makes one row per distinct schema.table key, in sorted order, that lists the privilege
  of every grant row with that key, in input order and without deduplication (the icons
  show each of SELECT, INSERT, UPDATE, DELETE at most once). displayColumnPermissions
  groups likewise by schema.table key and then by column name, when no column is named
  like a property of \<open>Object.prototype\<close>.
\<close>

theorem permission_report_shaping:
  "hasReadPermissions (displayQuickSummary report)
     = (\<exists>g\<in>set (tablePermissions report). privilege g = Some (JStr ''SELECT''))
   \<and> hasWritePermissions (displayQuickSummary report)
     = (\<exists>g\<in>set (tablePermissions report).
          privilege g \<in> {Some (JStr ''INSERT''), Some (JStr ''UPDATE''), Some (JStr ''DELETE'')})
   \<and> hasAdminPermissions (displayQuickSummary report)
     = (truthy (get_prop (roleDetails report) ''rolsuper'')
        \<or> truthy (get_prop (roleDetails report) ''rolcreatedb'')
        \<or> truthy (get_prop (roleDetails report) ''rolcreaterole''))
   \<and> totalTables (displayQuickSummary report) = card (table_key ` set (tablePermissions report))
   \<and> totalColumns (displayQuickSummary report) = card (column_key ` set (columnPermissions report))
   \<and> displayTablePermissions (tablePermissions report)
     = table_grants_by_key (tablePermissions report)
   \<and> ((\<forall>g\<in>set (columnPermissions report). column_name g \<notin> set object_prototype_names)
      \<longrightarrow> displayColumnPermissions (columnPermissions report)
          = Inr (column_grants_by_key (columnPermissions report)))"
proof -
  have r: "hasReadPermissions (displayQuickSummary report)
     = (\<exists>g\<in>set (tablePermissions report). privilege g = Some (JStr ''SELECT''))"
    by (simp add: displayQuickSummary_def Let_def list_ex_iff privilege_def)
  have w: "hasWritePermissions (displayQuickSummary report)
     = (\<exists>g\<in>set (tablePermissions report).
          privilege g \<in> {Some (JStr ''INSERT''), Some (JStr ''UPDATE''), Some (JStr ''DELETE'')})"
    by (simp add: displayQuickSummary_def Let_def list_ex_iff privilege_def)
  have a: "hasAdminPermissions (displayQuickSummary report)
     = (truthy (get_prop (roleDetails report) ''rolsuper'')
        \<or> truthy (get_prop (roleDetails report) ''rolcreatedb'')
        \<or> truthy (get_prop (roleDetails report) ''rolcreaterole''))"
    by (simp add: displayQuickSummary_def Let_def)
  have tk: "(\<lambda>p. template_string (get_prop p ''table_schema'') @ ''.''
                    @ template_string (get_prop p ''table_name'')) = table_key"
    by (simp add: fun_eq_iff table_key_def)
  have ck: "(\<lambda>p. template_string (get_prop p ''table_schema'') @ ''.''
                    @ template_string (get_prop p ''table_name'') @ ''.''
                    @ template_string (get_prop p ''column_name'')) = column_key"
    by (simp add: fun_eq_iff column_key_def table_key_def column_name_def)
  have t: "totalTables (displayQuickSummary report) = card (table_key ` set (tablePermissions report))"
    unfolding displayQuickSummary_def Let_def tk by (simp add: length_new_Set)
  have c: "totalColumns (displayQuickSummary report) = card (column_key ` set (columnPermissions report))"
    unfolding displayQuickSummary_def Let_def ck by (simp add: length_new_Set)
  from r w a t c displayTablePermissions_groups [of "tablePermissions report"]
    displayColumnPermissions_groups [of "columnPermissions report"]
  show ?thesis by (intro conjI impI)
qed

theorem permission_report_shaping_witness:
  "set (map column_name (columnPermissions demo_report)) \<inter> set object_prototype_names = {}
   \<and> displayQuickSummary demo_report =
       \<lparr>hasReadPermissions = True, hasWritePermissions = True, hasAdminPermissions = True,
        totalTables = 2, totalColumns = 2\<rparr>
   \<and> displayTablePermissions (tablePermissions demo_report) =
       [(''app.users'', [''SELECT''], [Some (JStr ''SELECT'')]),
        (''public.orders'', [''SELECT'', ''INSERT''],
         [Some (JStr ''INSERT''), Some (JStr ''SELECT''), Some (JStr ''SELECT'')])]
   \<and> displayColumnPermissions (columnPermissions demo_report) =
       Inr [(''public.orders'',
             [(''id'', [Some (JStr ''SELECT'')]),
              (''total'', [Some (JStr ''UPDATE''), Some (JStr ''SELECT'')])])]"
proof -
  note t = permission_report_shaping [of demo_report]
  note rest = t [THEN conjunct2, THEN conjunct2, THEN conjunct2, THEN conjunct2, THEN conjunct2]
  have tab: "displayTablePermissions (tablePermissions demo_report)
               = table_grants_by_key (tablePermissions demo_report)"
    by (rule rest [THEN conjunct1])
  have col: "displayColumnPermissions (columnPermissions demo_report)
               = Inr (column_grants_by_key (columnPermissions demo_report))"
    by (rule rest [THEN conjunct2, THEN mp, OF demo_columns_ok])
  show ?thesis
    unfolding tab col demo_table_rows demo_column_rows
    using demo_columns_ok by (intro conjI demo_summary refl) auto
qed


end
